theory Spec2Isabelle
  imports Main "HOL-Library.Word" "HOL-Library.Monad_Syntax"
begin

unbundle bit_operations_syntax

section \<open>Platform constants and integer types\<close>

text \<open>
  The library is modelled for an LP64 target: \<open>uint64_t\<close>, \<open>size_t\<close> and
  \<open>unsigned long\<close> are \<open>64 word\<close>, \<open>unsigned int\<close> is \<open>32 word\<close>; every
  addition and subtraction wraps as in C.
\<close>

type_synonym uxpte_t = "64 word"

text \<open>
  Modelled from the spec: the macros \<open>PAGE_SHIFT\<close> and \<open>PAGE_SIZE\<close> come from the
  header \<open>pm_util.h\<close>, which is not among the sources. The spec's scenarios use
  4096-byte pages (\<open>PAGE_SIZE = 1 << PAGE_SHIFT\<close>).
\<close>

definition PAGE_SHIFT :: nat where
  "PAGE_SHIFT = 12"

definition PAGE_SIZE :: "64 word" where
  "PAGE_SIZE = push_bit PAGE_SHIFT 1"

definition ULONG_MAX :: "64 word" where
  "ULONG_MAX = - 1"

definition UXPTE_SIZE_SHIFT :: nat where
  "UXPTE_SIZE_SHIFT = 3"

definition UXPTE_PER_PAGE_SHIFT :: nat where
  "UXPTE_PER_PAGE_SHIFT = PAGE_SHIFT - UXPTE_SIZE_SHIFT"

definition UXPTE_PER_PAGE :: "64 word" where
  "UXPTE_PER_PAGE = push_bit UXPTE_PER_PAGE_SHIFT 1"

section \<open>ux_page_table_c.c: address arithmetic\<close>

definition VirtPageNo :: "64 word \<Rightarrow> 64 word" where
  "VirtPageNo vaddr = drop_bit PAGE_SHIFT vaddr"

definition UxptePageNo :: "64 word \<Rightarrow> 64 word" where
  "UxptePageNo vaddr = drop_bit UXPTE_PER_PAGE_SHIFT (VirtPageNo vaddr)"

definition UxpteOffset :: "64 word \<Rightarrow> 64 word" where
  "UxpteOffset vaddr = VirtPageNo vaddr AND (UXPTE_PER_PAGE - 1)"

definition UXPTE_PRESENT_BIT :: nat where
  "UXPTE_PRESENT_BIT = 1"

definition UXPTE_PRESENT_MASK :: "64 word" where
  "UXPTE_PRESENT_MASK = push_bit UXPTE_PRESENT_BIT 1 - 1"

definition UXPTE_REFCNT_ONE :: "64 word" where
  "UXPTE_REFCNT_ONE = push_bit UXPTE_PRESENT_BIT 1"

definition UXPTE_UNDER_RECLAIM :: uxpte_t where
  "UXPTE_UNDER_RECLAIM = - UXPTE_REFCNT_ONE"

definition IsUxptePresent :: "uxpte_t \<Rightarrow> bool" where
  "IsUxptePresent pte = (pte AND UXPTE_PRESENT_MASK \<noteq> 0)"

definition IsUxpteUnderReclaim :: "uxpte_t \<Rightarrow> bool" where
  "IsUxpteUnderReclaim pte = (pte = UXPTE_UNDER_RECLAIM)"

text \<open>
  \<open>RoundUp\<close> is defined twice in the sources (once per file, on \<open>uint64_t\<close> and on
  \<open>size_t\<close>), with the same body; one definition serves both.
\<close>

definition RoundUp :: "64 word \<Rightarrow> 64 word \<Rightarrow> 64 word" where
  "RoundUp val align =
     (if val + align < val \<or> val + align < align then val
      else if align = 0 then val
      else ((val + align - 1) div align) * align)"

definition RoundDown :: "64 word \<Rightarrow> 64 word \<Rightarrow> 64 word" where
  "RoundDown val align =
     (if align = 0 then val else val AND NOT (align - 1))"

definition GetIndexInUxpte :: "64 word \<Rightarrow> 64 word \<Rightarrow> 64 word" where
  "GetIndexInUxpte startAddr currAddr =
     UxpteOffset startAddr + (VirtPageNo currAddr - VirtPageNo startAddr)"

section \<open>ux_page_table_c.c: one descriptor, shared with the kernel\<close>

text \<open>
  A descriptor is a memory cell that the kernel may overwrite between a load and the
  compare-and-swap that follows it. \<open>cell_sched\<close> lists what the kernel does in each of
  these windows, in order: \<open>None\<close> leaves the cell alone, \<open>Some v\<close> stores \<open>v\<close>.
  Once the list is used up the kernel is quiet.
\<close>

record pte_cell =
  cell_val :: uxpte_t
  cell_sched :: "uxpte_t option list"

definition quiet_cell :: "uxpte_t \<Rightarrow> pte_cell" where
  "quiet_cell v = \<lparr>cell_val = v, cell_sched = []\<rparr>"

definition UxpteLoad :: "pte_cell \<Rightarrow> uxpte_t" where
  "UxpteLoad uxpte = cell_val uxpte"

definition kernel_window :: "pte_cell \<Rightarrow> pte_cell" where
  "kernel_window c =
     (case cell_sched c of
        [] \<Rightarrow> c
      | None # ks \<Rightarrow> c\<lparr>cell_sched := ks\<rparr>
      | Some v # ks \<Rightarrow> c\<lparr>cell_val := v, cell_sched := ks\<rparr>)"

definition UxpteCAS_impl :: "pte_cell \<Rightarrow> uxpte_t \<Rightarrow> uxpte_t \<Rightarrow> bool \<times> pte_cell" where
  "UxpteCAS_impl uxpte old newVal =
     (let c = kernel_window uxpte in
      if cell_val c = old then (True, c\<lparr>cell_val := newVal\<rparr>) else (False, c))"

text \<open>
  \<open>UxpteAdd\<close> returns the cell and the number of \<open>sched_yield\<close> calls it made.
  In a \<open>do ... while\<close> loop, \<open>continue\<close> jumps to the loop condition, so the
  compare-and-swap is evaluated after the yield as well.
\<close>

function UxpteAdd :: "pte_cell \<Rightarrow> 64 word \<Rightarrow> pte_cell \<times> nat" where
  "UxpteAdd pte incNum =
     (let old = UxpteLoad pte in
      if old + incNum < old \<or> old + incNum < incNum then (pte, 0)
      else
        let newVal = old + incNum in
        if ULONG_MAX - old < incNum then (pte, 0)
        else
          let yields = (if IsUxpteUnderReclaim old then 1 else 0);
              swapped = UxpteCAS_impl pte old newVal
          in if fst swapped then (snd swapped, yields)
             else (let r = UxpteAdd (snd swapped) incNum in (fst r, snd r + yields)))"
  by pat_completeness auto
termination
proof (relation "measure (\<lambda>(pte, incNum). length (cell_sched pte))")
  show "wf (measure (\<lambda>(pte, incNum). length (cell_sched pte)))"
    by simp
next
  fix pte :: pte_cell and incNum :: "64 word" and old newVal :: uxpte_t
    and yields :: nat and swapped :: "bool \<times> pte_cell"
  assume "old = UxpteLoad pte" "newVal = old + incNum"
    "swapped = UxpteCAS_impl pte old newVal" "\<not> fst swapped"
  then show "((snd swapped, incNum), (pte, incNum))
             \<in> measure (\<lambda>(pte, incNum). length (cell_sched pte))"
    by (cases "cell_sched pte")
       (auto simp: UxpteCAS_impl_def UxpteLoad_def kernel_window_def Let_def
             split: option.splits if_splits)
qed

function UxpteSub :: "pte_cell \<Rightarrow> 64 word \<Rightarrow> pte_cell" where
  "UxpteSub pte decNum =
     (let old = UxpteLoad pte;
          swapped = UxpteCAS_impl pte old (old - decNum)
      in if fst swapped then snd swapped else UxpteSub (snd swapped) decNum)"
  by pat_completeness auto
termination
proof (relation "measure (\<lambda>(pte, decNum). length (cell_sched pte))")
  show "wf (measure (\<lambda>(pte, decNum). length (cell_sched pte)))"
    by simp
next
  fix pte :: pte_cell and decNum :: "64 word" and old :: uxpte_t
    and swapped :: "bool \<times> pte_cell"
  assume "old = UxpteLoad pte" "swapped = UxpteCAS_impl pte old (old - decNum)"
    "\<not> fst swapped"
  then show "((snd swapped, decNum), (pte, decNum))
             \<in> measure (\<lambda>(pte, decNum). length (cell_sched pte))"
    by (cases "cell_sched pte")
       (auto simp: UxpteCAS_impl_def UxpteLoad_def kernel_window_def Let_def
             split: option.splits if_splits)
qed

declare UxpteAdd.simps [simp del]
declare UxpteSub.simps [simp del]

function UxpteClear_loop :: "pte_cell \<Rightarrow> pte_cell" where
  "UxpteClear_loop pte =
     (let old = UxpteLoad pte;
          swapped = UxpteCAS_impl pte old 0
      in if fst swapped then snd swapped else UxpteClear_loop (snd swapped))"
  by pat_completeness auto
termination
proof (relation "measure (\<lambda>pte. length (cell_sched pte))")
  show "wf (measure (\<lambda>pte. length (cell_sched pte)))"
    by simp
next
  fix pte :: pte_cell and old :: uxpte_t and swapped :: "bool \<times> pte_cell"
  assume "old = UxpteLoad pte" "swapped = UxpteCAS_impl pte old 0" "\<not> fst swapped"
  then show "(snd swapped, pte) \<in> measure (\<lambda>pte. length (cell_sched pte))"
    by (cases "cell_sched pte")
       (auto simp: UxpteCAS_impl_def UxpteLoad_def kernel_window_def Let_def
             split: option.splits if_splits)
qed

declare UxpteClear_loop.simps [simp del]

text \<open>\<open>UxpteClear_\<close> of the source (a name cannot end with an underscore here).\<close>

definition UxpteClear_impl :: "pte_cell \<Rightarrow> pte_cell" where
  "UxpteClear_impl pte =
     (let old = UxpteLoad pte in
      if old = 0 then pte else UxpteClear_loop pte)"

section \<open>ux_page_table_c.c: the table and its range operations\<close>

datatype PMState =
    PM_OK
  | PM_BUILDER_NULL
  | PM_MMAP_UXPT_FAIL
  | PM_UNMAP_PURG_FAIL
  | PM_UNMAP_UXPT_FAIL
  | PM_UXPT_OUT_RANGE
  | PM_UXPT_NO_PRESENT
  | PM_LOCK_READ_FAIL
  | PM_LOCK_WRITE_FAIL
  | PM_UNLOCK_READ_FAIL
  | PM_UNLOCK_WRITE_FAIL
  | PM_DATA_PURGED
  | PM_DATA_NO_PURGED
  | PMB_BUILD_ALL_SUCC
  | PMB_BUILD_ALL_FAIL
  | PMB_DESTORY_FAIL

datatype UxpteOp = UPT_GET | UPT_PUT | UPT_CLEAR | UPT_IS_PRESENT

text \<open>
  \<open>uxpte\<close> is the mapped descriptor array, \<open>None\<close> for a \<open>NULL\<close> pointer. A table
  pointer itself is a \<open>UxPageTableStruct option\<close>. The result \<open>None\<close> of an operation
  means that the call does not return: it dereferences \<open>NULL\<close> or loops forever.
  Between two descriptors of one range operation the kernel is taken to be quiet
  (\<open>quiet_cell\<close>); interference is studied on the single descriptor above.
\<close>

record UxPageTableStruct =
  dataAddr :: "64 word"
  dataSize :: "64 word"
  uxpte :: "(64 word \<Rightarrow> uxpte_t) option"

definition GetUxpteAt :: "UxPageTableStruct \<Rightarrow> 64 word \<Rightarrow> UxPageTableStruct option" where
  "GetUxpteAt tab addr =
     (case uxpte tab of
        None \<Rightarrow> None
      | Some ptes \<Rightarrow>
          let index = GetIndexInUxpte (dataAddr tab) addr in
          Some (tab\<lparr>uxpte := Some (ptes(index :=
            cell_val (fst (UxpteAdd (quiet_cell (ptes index)) UXPTE_REFCNT_ONE))))\<rparr>))"

definition PutUxpteAt :: "UxPageTableStruct \<Rightarrow> 64 word \<Rightarrow> UxPageTableStruct option" where
  "PutUxpteAt tab addr =
     (case uxpte tab of
        None \<Rightarrow> None
      | Some ptes \<Rightarrow>
          let index = GetIndexInUxpte (dataAddr tab) addr in
          Some (tab\<lparr>uxpte := Some (ptes(index :=
            cell_val (UxpteSub (quiet_cell (ptes index)) UXPTE_REFCNT_ONE)))\<rparr>))"

definition ClearUxpteAt :: "UxPageTableStruct \<Rightarrow> 64 word \<Rightarrow> UxPageTableStruct option" where
  "ClearUxpteAt tab addr =
     (case uxpte tab of
        None \<Rightarrow> None
      | Some ptes \<Rightarrow>
          let index = GetIndexInUxpte (dataAddr tab) addr in
          Some (tab\<lparr>uxpte := Some (ptes(index :=
            cell_val (UxpteClear_impl (quiet_cell (ptes index)))))\<rparr>))"

definition IsPresentAt :: "UxPageTableStruct \<Rightarrow> 64 word \<Rightarrow> bool option" where
  "IsPresentAt tab addr =
     (case uxpte tab of
        None \<Rightarrow> None
      | Some ptes \<Rightarrow>
          let index = GetIndexInUxpte (dataAddr tab) addr in
          Some (IsUxptePresent (ptes index)))"

text \<open>
  The \<open>for\<close> loop of \<open>UxpteOps\<close>. Its counter is a \<open>uint64_t\<close>: \<open>off += PAGE_SIZE\<close>
  wraps, and the loop need not end, hence the partial function.
\<close>

partial_function (option) UxpteOps_loop ::
  "UxpteOp \<Rightarrow> 64 word \<Rightarrow> 64 word \<Rightarrow> UxPageTableStruct \<Rightarrow> (PMState \<times> UxPageTableStruct) option"
where
  "UxpteOps_loop op off endAddr tab =
     (if off < endAddr then
        (case op of
           UPT_GET \<Rightarrow>
             Option.bind (GetUxpteAt tab off)
               (\<lambda>u. UxpteOps_loop op (off + PAGE_SIZE) endAddr u)
         | UPT_PUT \<Rightarrow>
             Option.bind (PutUxpteAt tab off)
               (\<lambda>u. UxpteOps_loop op (off + PAGE_SIZE) endAddr u)
         | UPT_CLEAR \<Rightarrow>
             Option.bind (ClearUxpteAt tab off)
               (\<lambda>u. UxpteOps_loop op (off + PAGE_SIZE) endAddr u)
         | UPT_IS_PRESENT \<Rightarrow>
             Option.bind (IsPresentAt tab off)
               (\<lambda>present.
                  if \<not> present then Some (PM_UXPT_NO_PRESENT, tab)
                  else UxpteOps_loop op (off + PAGE_SIZE) endAddr tab))
      else Some (PM_OK, tab))"

definition UxpteOps ::
  "UxPageTableStruct option \<Rightarrow> 64 word \<Rightarrow> 64 word \<Rightarrow> UxpteOp
   \<Rightarrow> (PMState \<times> UxPageTableStruct option) option"
where
  "UxpteOps tab addr len op =
     (case tab of
        None \<Rightarrow> Some (PM_BUILDER_NULL, None)
      | Some t \<Rightarrow>
          let start = RoundDown addr PAGE_SIZE;
              endAddr = RoundUp (addr + len) PAGE_SIZE
          in if start < dataAddr t \<or> endAddr > dataAddr t + dataSize t
             then Some (PM_UXPT_OUT_RANGE, Some t)
             else map_option (\<lambda>(ret, t'). (ret, Some t')) (UxpteOps_loop op start endAddr t))"

text \<open>
  \<open>g_supportUxpt\<close>, the result of the capability probe \<open>CheckUxpt\<close>, is the first
  argument of every function that reads it.
\<close>

definition UxpteIsEnabled :: "bool \<Rightarrow> bool" where
  "UxpteIsEnabled g_supportUxpt = g_supportUxpt"

definition UxpteGet ::
  "bool \<Rightarrow> UxPageTableStruct option \<Rightarrow> 64 word \<Rightarrow> 64 word \<Rightarrow> UxPageTableStruct option option"
where
  "UxpteGet g_supportUxpt tab addr len =
     (if \<not> g_supportUxpt then Some tab
      else map_option snd (UxpteOps tab addr len UPT_GET))"

definition UxptePut ::
  "bool \<Rightarrow> UxPageTableStruct option \<Rightarrow> 64 word \<Rightarrow> 64 word \<Rightarrow> UxPageTableStruct option option"
where
  "UxptePut g_supportUxpt tab addr len =
     (if \<not> g_supportUxpt then Some tab
      else map_option snd (UxpteOps tab addr len UPT_PUT))"


definition UxpteIsPresent ::
  "bool \<Rightarrow> UxPageTableStruct option \<Rightarrow> 64 word \<Rightarrow> 64 word \<Rightarrow> bool option"
where
  "UxpteIsPresent g_supportUxpt tab addr len =
     (if \<not> g_supportUxpt then Some True
      else map_option (\<lambda>(ret, t). ret = PM_OK) (UxpteOps tab addr len UPT_IS_PRESENT))"

section \<open>Services the library calls\<close>

subsection \<open>The kernel's side of the descriptors\<close>

text \<open>
  The pages visited by the loop of \<open>UxpteOps\<close> for the bounds \<open>start\<close> and
  \<open>endAddr\<close>, when the counter does not wrap: \<open>start\<close>, \<open>start + PAGE_SIZE\<close>, ...
  below \<open>endAddr\<close>.
\<close>

primrec pages_from :: "64 word \<Rightarrow> nat \<Rightarrow> 64 word list" where
  "pages_from off 0 = []"
| "pages_from off (Suc n) = off # pages_from (off + PAGE_SIZE) n"

definition npages :: "64 word \<Rightarrow> 64 word \<Rightarrow> nat" where
  "npages start endAddr =
     (unat endAddr - unat start + (unat PAGE_SIZE - 1)) div unat PAGE_SIZE"

definition page_range :: "64 word \<Rightarrow> 64 word \<Rightarrow> 64 word list" where
  "page_range start endAddr = pages_from start (npages start endAddr)"

text \<open>
  \<open>map_descriptors g d pages ptes\<close> applies \<open>g\<close> to the descriptor of every page of the
  list, in order, in the descriptors \<open>ptes\<close> of a table for the data address \<open>d\<close>.
\<close>

definition map_descriptors ::
  "(uxpte_t \<Rightarrow> uxpte_t) \<Rightarrow> 64 word \<Rightarrow> 64 word list \<Rightarrow> (64 word \<Rightarrow> uxpte_t)
   \<Rightarrow> (64 word \<Rightarrow> uxpte_t)"
where
  "map_descriptors g d pages ptes =
     foldl (\<lambda>a off. a(GetIndexInUxpte d off := g (a (GetIndexInUxpte d off)))) ptes pages"

text \<open>
  Modelled from the spec: the kernel is no code of the library. The spec's data model
  says that the present flag of a descriptor is "set by the kernel when a data page is
  populated". A store to every byte of \<open>[addr, addr + len)\<close> populates the pages that
  cover the range, so the kernel sets the present flag of their descriptors. Without
  the capability there is no descriptor mapping and nothing happens. The kernel's
  reclaim path is not modelled at the level of a region.
\<close>

definition kernel_populate ::
  "bool \<Rightarrow> UxPageTableStruct option \<Rightarrow> 64 word \<Rightarrow> 64 word \<Rightarrow> UxPageTableStruct option"
where
  "kernel_populate g_supportUxpt tab addr len =
     (if \<not> g_supportUxpt then tab
      else case tab of
        None \<Rightarrow> None
      | Some t \<Rightarrow>
          (case uxpte t of
             None \<Rightarrow> Some t
           | Some ptes \<Rightarrow>
               Some (t\<lparr>uxpte := Some
                 (map_descriptors (\<lambda>v. v OR 1) (dataAddr t)
                    (page_range (RoundDown addr PAGE_SIZE) (RoundUp (addr + len) PAGE_SIZE))
                    ptes)\<rparr>)))"

subsection \<open>The read-write lock\<close>

text \<open>
  The POSIX lock as one thread sees it: how many read locks the thread holds and
  whether it holds the write lock. An acquisition that POSIX lets fail with
  \<open>EDEADLK\<close> fails; an unlock of a lock that is not held fails with \<open>EPERM\<close>.
  Other threads are not modelled.
\<close>

record rwlock_t =
  readers :: nat
  writer :: bool

definition EPERM :: int where
  "EPERM = 1"

definition EDEADLK :: int where
  "EDEADLK = 35"

definition rwlock_free :: rwlock_t where
  "rwlock_free = \<lparr>readers = 0, writer = False\<rparr>"

definition pthread_rwlock_rdlock :: "rwlock_t \<Rightarrow> int \<times> rwlock_t" where
  "pthread_rwlock_rdlock l =
     (if writer l then (EDEADLK, l) else (0, l\<lparr>readers := readers l + 1\<rparr>))"

definition pthread_rwlock_wrlock :: "rwlock_t \<Rightarrow> int \<times> rwlock_t" where
  "pthread_rwlock_wrlock l =
     (if writer l \<or> 0 < readers l then (EDEADLK, l) else (0, l\<lparr>writer := True\<rparr>))"

definition pthread_rwlock_unlock :: "rwlock_t \<Rightarrow> int \<times> rwlock_t" where
  "pthread_rwlock_unlock l =
     (if writer l then (0, l\<lparr>writer := False\<rparr>)
      else if 0 < readers l then (0, l\<lparr>readers := readers l - 1\<rparr>)
      else (EPERM, l))"

subsection \<open>The bytes of the data mapping and \<open>memset_s\<close>\<close>

text \<open>
  The bytes of the mapping at \<open>dataPtr\<close> are a function from the byte offset.
  \<open>memset_s (dest, destMax, c, count)\<close> is the bounds-checked \<open>memset\<close> of the
  securec library: it stores \<open>count\<close> bytes when \<open>count \<le> destMax\<close> and
  \<open>destMax\<close> is within the library's limit.
\<close>

type_synonym bytes = "nat \<Rightarrow> 8 word"

definition EOK :: int where
  "EOK = 0"

definition EINVAL :: int where
  "EINVAL = 22"

definition ERANGE :: int where
  "ERANGE = 34"

definition ERANGE_AND_RESET :: int where
  "ERANGE_AND_RESET = 162"

definition SECUREC_MEM_MAX_LEN :: "64 word" where
  "SECUREC_MEM_MAX_LEN = 0x7fffffff"

definition memset_s :: "64 word \<Rightarrow> bytes \<Rightarrow> 64 word \<Rightarrow> 8 word \<Rightarrow> 64 word \<Rightarrow> int \<times> bytes" where
  "memset_s dest m destMax c count =
     (if destMax = 0 \<or> destMax > SECUREC_MEM_MAX_LEN then (ERANGE, m)
      else if dest = 0 then (EINVAL, m)
      else if count > destMax
        then (ERANGE_AND_RESET, \<lambda>i. if i < unat destMax then c else m i)
      else (EOK, \<lambda>i. if i < unat count then c else m i))"

subsection \<open>The builder chain\<close>

text \<open>
  A modify function \<open>bool func(void *dst, size_t size, void *param)\<close> is given the
  buffer \<open>dst[0..size)\<close> and its parameter, and returns its verdict and the new
  buffer. \<open>call_func\<close> is the call through the function pointer on the mapping.
\<close>

type_synonym 'p PurgMemModifyFunc = "8 word list \<Rightarrow> 'p \<Rightarrow> bool \<times> 8 word list"

definition call_func :: "'p PurgMemModifyFunc \<Rightarrow> bytes \<Rightarrow> 64 word \<Rightarrow> 'p \<Rightarrow> bool \<times> bytes" where
  "call_func func m sz param =
     (let r = func (map m [0..<unat sz]) param in
      (fst r, \<lambda>i. if i < unat sz \<and> i < length (snd r) then snd r ! i else m i))"

text \<open>
  Modelled from the spec: \<open>purgeable_mem_builder_c.c\<close> is not among the sources.
  A builder is the linked chain of its nodes \<open>(fn, param)\<close>, head first; the empty
  list is the \<open>NULL\<close> builder. "\<open>buildAll(dst, size)\<close> walks the chain from head to
  tail, invoking each \<open>fn(dst, size, param)\<close> in order. Any \<open>false\<close> return aborts and
  returns \<open>false\<close>. \<open>append(builder)\<close> links a new node at the tail. \<open>destroy()\<close> walks
  the chain releasing each node." A null builder is an invalid argument of append.
  Whether the allocation of a node and the teardown of a chain succeed is told by the
  environment.
\<close>

type_synonym 'p PurgMemBuilder = "('p PurgMemModifyFunc \<times> 'p) list"

primrec PurgMemBuilderBuildAll :: "'p PurgMemBuilder \<Rightarrow> bytes \<Rightarrow> 64 word \<Rightarrow> bool \<times> bytes" where
  "PurgMemBuilderBuildAll [] m sz = (True, m)"
| "PurgMemBuilderBuildAll (node # nextBuilder) m sz =
     (let r = call_func (fst node) m sz (snd node) in
      if \<not> fst r then (False, snd r)
      else PurgMemBuilderBuildAll nextBuilder (snd r) sz)"

definition PurgMemBuilderCreate :: "bool \<Rightarrow> 'p PurgMemModifyFunc \<Rightarrow> 'p \<Rightarrow> 'p PurgMemBuilder" where
  "PurgMemBuilderCreate alloc_ok func param = (if alloc_ok then [(func, param)] else [])"

definition PurgMemBuilderAppendBuilder ::
  "'p PurgMemBuilder \<Rightarrow> 'p PurgMemBuilder \<Rightarrow> bool \<times> 'p PurgMemBuilder"
where
  "PurgMemBuilderAppendBuilder chain newcomer =
     (if chain = [] \<or> newcomer = [] then (False, chain) else (True, chain @ newcomer))"

definition PurgMemBuilderDestroy :: "bool \<Rightarrow> 'p PurgMemBuilder \<Rightarrow> bool" where
  "PurgMemBuilderDestroy destroy_ok chain = destroy_ok"

subsection \<open>What the operating system answers\<close>

text \<open>
  The answers of \<open>malloc\<close>, \<open>mmap\<close>, \<open>munmap\<close> and of the lock's initialisation and
  destruction during one call of the library. \<open>malloc_uxpt\<close> is the uninitialised
  table that \<open>malloc\<close> returns, \<open>mmap_uxpte\<close> the descriptors as first mapped.
\<close>

record sys_env =
  malloc_PurgMem_ok :: bool
  mmap_data :: "64 word option"
  malloc_uxpt :: "UxPageTableStruct option"
  mmap_uxpte :: "(64 word \<Rightarrow> uxpte_t) option"
  rwlock_init_ret :: int
  rwlock_destroy_ret :: int
  builder_alloc_ok :: bool
  builder_destroy_ok :: bool
  munmap_data_ret :: int
  munmap_uxpte_ret :: int

section \<open>ux_page_table_c.c: set-up and tear-down of the table\<close>


definition UnmapUxptePages :: "sys_env \<Rightarrow> int" where
  "UnmapUxptePages env = munmap_uxpte_ret env"


definition DeinitUxPageTable ::
  "bool \<Rightarrow> sys_env \<Rightarrow> UxPageTableStruct option \<Rightarrow> PMState \<times> UxPageTableStruct option"
where
  "DeinitUxPageTable g_supportUxpt env tab =
     (if \<not> g_supportUxpt then (PM_OK, tab)
      else case tab of
        None \<Rightarrow> (PM_MMAP_UXPT_FAIL, None)
      | Some t \<Rightarrow>
          (case uxpte t of
             Some ptes \<Rightarrow>
               let unmapRet = UnmapUxptePages env in
               if unmapRet \<noteq> 0 then (PM_UNMAP_UXPT_FAIL, Some t)
               else (PM_OK, Some (t\<lparr>uxpte := None, dataAddr := 0, dataSize := 0\<rparr>))
           | None \<Rightarrow> (PM_OK, Some (t\<lparr>dataAddr := 0, dataSize := 0\<rparr>))))"

section \<open>purgeable_mem_c.c: the purgeable region\<close>

text \<open>
  A pointer to a region is a \<open>'p PurgMem option\<close>; \<open>dataPtr\<close> is \<open>NULL\<close> when it is
  0. \<open>mem\<close> holds the bytes of the mapping at \<open>dataPtr\<close>. \<open>'p\<close> is the type of the
  parameters of the modify functions.
\<close>

record 'p PurgMem =
  dataPtr :: "64 word"
  dataSizeInput :: "64 word"
  builder :: "'p PurgMemBuilder"
  uxPageTable :: "UxPageTableStruct option"
  rwlock :: rwlock_t
  buildDataCount :: "32 word"
  mem :: bytes

definition IsPurgMemPtrValid :: "'p PurgMem option \<Rightarrow> bool" where
  "IsPurgMemPtrValid purgObj =
     (case purgObj of
        None \<Rightarrow> False
      | Some p \<Rightarrow>
          if dataPtr p = 0 then False
          else if uxPageTable p = None then False
          else if builder p = [] then False
          else True)"

definition IsPurged :: "bool \<Rightarrow> 'p PurgMem \<Rightarrow> bool option" where
  "IsPurged g_supportUxpt purgObj =
     (if buildDataCount purgObj = 0 then Some True
      else map_option Not
             (UxpteIsPresent g_supportUxpt (uxPageTable purgObj) (dataPtr purgObj)
                (dataSizeInput purgObj)))"

text \<open>
  \<open>PurgMemBuildData\<close>: the stores of a successful \<open>memset_s\<close> reach every byte of
  \<open>dataPtr[0..dataSizeInput)\<close>, so the kernel populates these pages.
\<close>

definition PurgMemBuildData :: "bool \<Rightarrow> 'p PurgMem \<Rightarrow> bool \<times> 'p PurgMem" where
  "PurgMemBuildData g_supportUxpt purgObj =
     (let r = memset_s (dataPtr purgObj) (mem purgObj)
                (RoundUp (dataSizeInput purgObj) PAGE_SIZE) 0 (dataSizeInput purgObj)
      in if fst r \<noteq> EOK then (False, purgObj\<lparr>mem := snd r\<rparr>)
         else
           let cleared = purgObj\<lparr>mem := snd r,
                 uxPageTable := kernel_populate g_supportUxpt (uxPageTable purgObj)
                                  (dataPtr purgObj) (dataSizeInput purgObj)\<rparr>;
               b = PurgMemBuilderBuildAll (builder purgObj) (mem cleared) (dataSizeInput purgObj)
           in if fst b
              then (True, cleared\<lparr>mem := snd b, buildDataCount := buildDataCount purgObj + 1\<rparr>)
              else (False, cleared\<lparr>mem := snd b\<rparr>))"

definition TryBeginRead :: "bool \<Rightarrow> 'p PurgMem \<Rightarrow> (PMState \<times> 'p PurgMem) option" where
  "TryBeginRead g_supportUxpt purgObj =
     (let l = pthread_rwlock_rdlock (rwlock purgObj) in
      if fst l \<noteq> 0 then Some (PM_LOCK_READ_FAIL, purgObj)
      else
        let locked = purgObj\<lparr>rwlock := snd l\<rparr> in
        do {
          purged \<leftarrow> IsPurged g_supportUxpt locked;
          if \<not> purged then Some (PM_DATA_NO_PURGED, locked)
          else
            let u = pthread_rwlock_unlock (rwlock locked) in
            if fst u \<noteq> 0 then Some (PM_UNLOCK_READ_FAIL, locked)
            else Some (PM_DATA_PURGED, locked\<lparr>rwlock := snd u\<rparr>)
        })"

definition BeginReadBuildData :: "bool \<Rightarrow> 'p PurgMem \<Rightarrow> (PMState \<times> 'p PurgMem) option" where
  "BeginReadBuildData g_supportUxpt purgObj =
     (let l = pthread_rwlock_wrlock (rwlock purgObj) in
      if fst l \<noteq> 0 then Some (PM_LOCK_WRITE_FAIL, purgObj)
      else
        let locked = purgObj\<lparr>rwlock := snd l\<rparr> in
        do {
          purged \<leftarrow> IsPurged g_supportUxpt locked;
          let b = (if purged then PurgMemBuildData g_supportUxpt locked else (False, locked));
              u = pthread_rwlock_unlock (rwlock (snd b))
          in if fst u \<noteq> 0 then Some (PM_UNLOCK_WRITE_FAIL, snd b)
             else if \<not> fst b then Some (PMB_BUILD_ALL_FAIL, (snd b)\<lparr>rwlock := snd u\<rparr>)
             else Some (PMB_BUILD_ALL_SUCC, (snd b)\<lparr>rwlock := snd u\<rparr>)
        })"

text \<open>The \<open>while (true)\<close> loop of \<open>PurgMemBeginRead\<close>; it returns \<open>ret\<close>, \<open>err\<close> and the region.\<close>

partial_function (option) PurgMemBeginRead_loop ::
  "bool \<Rightarrow> 'p PurgMem \<Rightarrow> (bool \<times> PMState \<times> 'p PurgMem) option"
where
  "PurgMemBeginRead_loop g_supportUxpt purgObj =
     do {
       t \<leftarrow> TryBeginRead g_supportUxpt purgObj;
       if fst t = PM_DATA_NO_PURGED then Some (True, fst t, snd t)
       else if fst t \<noteq> PM_DATA_PURGED then Some (False, fst t, snd t)
       else do {
         b \<leftarrow> BeginReadBuildData g_supportUxpt (snd t);
         if fst b \<noteq> PMB_BUILD_ALL_SUCC then Some (False, fst b, snd b)
         else PurgMemBeginRead_loop g_supportUxpt (snd b)
       }
     }"

definition PurgMemBeginRead ::
  "bool \<Rightarrow> 'p PurgMem option \<Rightarrow> (bool \<times> 'p PurgMem option) option"
where
  "PurgMemBeginRead g_supportUxpt purgObj =
     (case purgObj of
        None \<Rightarrow> Some (False, None)
      | Some p \<Rightarrow>
          if \<not> IsPurgMemPtrValid purgObj then Some (False, purgObj)
          else do {
            pinned \<leftarrow> UxpteGet g_supportUxpt (uxPageTable p) (dataPtr p) (dataSizeInput p);
            r \<leftarrow> PurgMemBeginRead_loop g_supportUxpt (p\<lparr>uxPageTable := pinned\<rparr>);
            if \<not> fst r then do {
              unpinned \<leftarrow> UxptePut g_supportUxpt (uxPageTable (snd (snd r)))
                            (dataPtr (snd (snd r))) (dataSizeInput (snd (snd r)));
              Some (False, Some ((snd (snd r))\<lparr>uxPageTable := unpinned\<rparr>))
            }
            else Some (True, Some (snd (snd r)))
          })"

definition PurgMemBeginWrite ::
  "bool \<Rightarrow> 'p PurgMem option \<Rightarrow> (bool \<times> 'p PurgMem option) option"
where
  "PurgMemBeginWrite g_supportUxpt purgObj =
     (case purgObj of
        None \<Rightarrow> Some (False, None)
      | Some p \<Rightarrow>
          if \<not> IsPurgMemPtrValid purgObj then Some (False, purgObj)
          else do {
            pinned \<leftarrow> UxpteGet g_supportUxpt (uxPageTable p) (dataPtr p) (dataSizeInput p);
            let p1 = p\<lparr>uxPageTable := pinned\<rparr>;
                l = pthread_rwlock_wrlock (rwlock p1)
            in if fst l \<noteq> 0 then do {
                 unpinned \<leftarrow> UxptePut g_supportUxpt (uxPageTable p1) (dataPtr p1) (dataSizeInput p1);
                 Some (False, Some (p1\<lparr>uxPageTable := unpinned\<rparr>))
               }
               else
                 let locked = p1\<lparr>rwlock := snd l\<rparr> in
                 do {
                   purged \<leftarrow> IsPurged g_supportUxpt locked;
                   if \<not> purged then Some (True, Some locked)
                   else
                     let b = PurgMemBuildData g_supportUxpt locked in
                     if fst b then Some (True, Some (snd b))
                     else
                       let u = pthread_rwlock_unlock (rwlock (snd b));
                           p2 = (snd b)\<lparr>rwlock := snd u\<rparr>
                       in do {
                         unpinned \<leftarrow> UxptePut g_supportUxpt (uxPageTable p2) (dataPtr p2)
                                       (dataSizeInput p2);
                         Some (False, Some (p2\<lparr>uxPageTable := unpinned\<rparr>))
                       }
                 }
          })"

definition EndAccessPurgMem :: "bool \<Rightarrow> 'p PurgMem option \<Rightarrow> 'p PurgMem option option" where
  "EndAccessPurgMem g_supportUxpt purgObj =
     (case purgObj of
        None \<Rightarrow> Some None
      | Some p \<Rightarrow>
          if \<not> IsPurgMemPtrValid purgObj then Some purgObj
          else
            let u = pthread_rwlock_unlock (rwlock p) in
            do {
              unpinned \<leftarrow> UxptePut g_supportUxpt (uxPageTable p) (dataPtr p) (dataSizeInput p);
              Some (Some (p\<lparr>rwlock := snd u, uxPageTable := unpinned\<rparr>))
            })"

definition PurgMemEndRead :: "bool \<Rightarrow> 'p PurgMem option \<Rightarrow> 'p PurgMem option option" where
  "PurgMemEndRead g_supportUxpt purgObj = EndAccessPurgMem g_supportUxpt purgObj"

definition PurgMemEndWrite :: "bool \<Rightarrow> 'p PurgMem option \<Rightarrow> 'p PurgMem option option" where
  "PurgMemEndWrite g_supportUxpt purgObj = EndAccessPurgMem g_supportUxpt purgObj"

text \<open>\<open>PurgMemGetContent\<close> returns the pointer; reading \<open>mem\<close> is what the caller does with it.\<close>

definition PurgMemGetContent :: "'p PurgMem option \<Rightarrow> 64 word" where
  "PurgMemGetContent purgObj =
     (if \<not> IsPurgMemPtrValid purgObj then 0 else dataPtr (the purgObj))"

definition PurgMemGetContentSize :: "'p PurgMem option \<Rightarrow> 64 word" where
  "PurgMemGetContentSize purgObj =
     (if \<not> IsPurgMemPtrValid purgObj then 0 else dataSizeInput (the purgObj))"

definition PurgMemAppendModify ::
  "sys_env \<Rightarrow> 'p PurgMem option \<Rightarrow> 'p PurgMemModifyFunc option \<Rightarrow> 'p
   \<Rightarrow> bool \<times> 'p PurgMem option"
where
  "PurgMemAppendModify env purgObj func funcPara =
     (case func of
        None \<Rightarrow> (True, purgObj)
      | Some f \<Rightarrow>
          (case purgObj of
             None \<Rightarrow> (False, None)
           | Some p \<Rightarrow>
               let r = call_func f (mem p) (dataSizeInput p) funcPara;
                   p1 = p\<lparr>mem := snd r\<rparr>
               in if \<not> fst r then (False, Some p1)
                  else
                    let b = PurgMemBuilderCreate (builder_alloc_ok env) f funcPara in
                    if b = [] then (False, Some p1)
                    else if builder p1 = [] then (True, Some (p1\<lparr>builder := b\<rparr>))
                    else
                      let a = PurgMemBuilderAppendBuilder (builder p1) b in
                      (fst a, Some (p1\<lparr>builder := snd a\<rparr>))))"

text \<open>
  \<open>PurgMemDestroy\<close> also returns the calls it made that release a resource, in order:
  the trace tells a retried release from a repeated one.
\<close>

datatype teardown_call =
    Call_pthread_rwlock_destroy
  | Call_PurgMemBuilderDestroy
  | Call_munmap_dataPtr
  | Call_DeinitUxPageTable
  | Call_free_uxPageTable
  | Call_free_purgObj

definition PurgMemDestroy ::
  "bool \<Rightarrow> sys_env \<Rightarrow> 'p PurgMem option
   \<Rightarrow> (bool \<times> 'p PurgMem option \<times> teardown_call list) option"
where
  "PurgMemDestroy g_supportUxpt env purgObj =
     (case purgObj of
        None \<Rightarrow> Some (True, None, [])
      | Some p \<Rightarrow>
          let c0 = [Call_pthread_rwlock_destroy];
              (err1, p1, c1) =
                (if builder p \<noteq> [] then
                   (if \<not> PurgMemBuilderDestroy (builder_destroy_ok env) (builder p)
                    then (PMB_DESTORY_FAIL, p, c0 @ [Call_PurgMemBuilderDestroy])
                    else (PM_OK, p\<lparr>builder := []\<rparr>, c0 @ [Call_PurgMemBuilderDestroy]))
                 else (PM_OK, p, c0))
          in do {
            (err2, p2, c2) \<leftarrow>
              (if dataPtr p1 \<noteq> 0 then
                 (if munmap_data_ret env \<noteq> 0
                  then Some (PM_UNMAP_PURG_FAIL, p1, c1 @ [Call_munmap_dataPtr])
                  else do {
                    logged \<leftarrow> (if UxpteIsEnabled g_supportUxpt
                               then IsPurged g_supportUxpt p1 else Some True);
                    Some (err1, p1\<lparr>dataPtr := 0\<rparr>, c1 @ [Call_munmap_dataPtr])
                  })
               else Some (err1, p1, c1));
            let (err3, p3, c3) =
                (if uxPageTable p2 \<noteq> None then
                   (let d = DeinitUxPageTable g_supportUxpt env (uxPageTable p2) in
                    if fst d \<noteq> PM_OK
                    then (fst d, p2\<lparr>uxPageTable := snd d\<rparr>, c2 @ [Call_DeinitUxPageTable])
                    else (err2, p2\<lparr>uxPageTable := None\<rparr>,
                          c2 @ [Call_DeinitUxPageTable, Call_free_uxPageTable]))
                 else (err2, p2, c2))
            in if err3 = PM_OK then Some (True, None, c3 @ [Call_free_purgObj])
               else Some (False, Some p3, c3)
          })"



section \<open>Reference notions\<close>

text \<open>
  An operation applied to every page of a list, in order: what "the operation is
  applied to every descriptor covering the range" means for \<open>get\<close>, \<open>put\<close> and
  \<open>clear\<close>.
\<close>

primrec ops_on_pages ::
  "(UxPageTableStruct \<Rightarrow> 64 word \<Rightarrow> UxPageTableStruct option) \<Rightarrow> 64 word list
   \<Rightarrow> UxPageTableStruct \<Rightarrow> UxPageTableStruct option"
where
  "ops_on_pages f [] tab = Some tab"
| "ops_on_pages f (off # offs) tab = Option.bind (f tab off) (ops_on_pages f offs)"

text \<open>
  What \<open>UxpteAdd\<close> with the refcount unit leaves in a descriptor when the kernel is
  quiet: the unit is added unless the addition overflows.
\<close>

definition pin_value :: "uxpte_t \<Rightarrow> uxpte_t" where
  "pin_value v = (if v + 2 < v then v else v + 2)"

text \<open>
  The presence query over a list of pages, in order: it stops at the first page whose
  descriptor lacks the present bit.
\<close>

primrec present_on_pages :: "64 word list \<Rightarrow> UxPageTableStruct \<Rightarrow> PMState option" where
  "present_on_pages [] tab = Some PM_OK"
| "present_on_pages (off # offs) tab =
     Option.bind (IsPresentAt tab off)
       (\<lambda>present. if \<not> present then Some PM_UXPT_NO_PRESENT else present_on_pages offs tab)"

section \<open>Inputs of the witnesses\<close>

text \<open>The modify function of the spec's first scenario: every byte is set to the parameter.\<close>

definition fill_func :: "8 word PurgMemModifyFunc" where
  "fill_func buf c = (True, map (\<lambda>b. c) buf)"

definition fail_func :: "8 word PurgMemModifyFunc" where
  "fail_func buf c = (False, buf)"

text \<open>
  A one-byte region at address \<open>0x10000\<close> whose mapping holds \<open>0xFF\<close> in every byte,
  on a host without the capability.
\<close>

definition ex_table :: UxPageTableStruct where
  "ex_table = \<lparr>dataAddr = 0x10000, dataSize = 0x1000, uxpte = Some (\<lambda>i. 0)\<rparr>"

definition ex_region :: "8 word PurgMem" where
  "ex_region = \<lparr>dataPtr = 0x10000, dataSizeInput = 1, builder = [(fill_func, 0x5A)],
                uxPageTable = Some ex_table, rwlock = rwlock_free, buildDataCount = 0,
                mem = (\<lambda>i. 0xFF)\<rparr>"

text \<open>An environment in which allocations fail and the data mapping cannot be unmapped.\<close>

definition ex_env_failing :: sys_env where
  "ex_env_failing = \<lparr>malloc_PurgMem_ok = False, mmap_data = None, malloc_uxpt = None,
                     mmap_uxpte = None, rwlock_init_ret = 0, rwlock_destroy_ret = 0,
                     builder_alloc_ok = False, builder_destroy_ok = True,
                     munmap_data_ret = - 1, munmap_uxpte_ret = 0\<rparr>"



text \<open>
  The one-byte region with a modify function that fails, on the table whose descriptors
  are zero; \<open>ex_unpinned\<close> is that region after a failed first access with the
  capability. In \<open>ex_saturated\<close> the reference count of every descriptor is at its
  maximum and the present flag is set.
\<close>

definition ex_failing :: "8 word PurgMem" where
  "ex_failing = ex_region\<lparr>builder := [(fail_func, 0)]\<rparr>"

definition ex_unpinned :: "8 word PurgMem" where
  "ex_unpinned = ex_failing\<lparr>mem := (\<lambda>i. if i = 0 then 0 else 0xFF),
                   uxPageTable := Some (ex_table\<lparr>uxpte := Some ((\<lambda>i. 0)(16 := 1))\<rparr>)\<rparr>"

definition ex_saturated :: "8 word PurgMem" where
  "ex_saturated = ex_failing\<lparr>uxPageTable :=
                    Some (ex_table\<lparr>uxpte := Some (\<lambda>i. 0xFFFFFFFFFFFFFFFF)\<rparr>)\<rparr>"

section \<open>Auxiliary lemmas\<close>

lemma PAGE_SIZE_4096: "PAGE_SIZE = 4096"
  by (simp add: PAGE_SIZE_def PAGE_SHIFT_def)

lemma IsUxptePresent_odd: "IsUxptePresent v = odd v"
  by (simp add: IsUxptePresent_def UXPTE_PRESENT_BIT_def UXPTE_PRESENT_MASK_def and_one_eq
        odd_iff_mod_2_eq_one)

lemma UXPTE_REFCNT_ONE_2: "UXPTE_REFCNT_ONE = 2"
  by (simp add: UXPTE_REFCNT_ONE_def UXPTE_PRESENT_BIT_def)

lemma present_sub: "IsUxptePresent (v - UXPTE_REFCNT_ONE) = IsUxptePresent v"
  by (simp add: IsUxptePresent_odd UXPTE_REFCNT_ONE_2)

lemma present_add: "IsUxptePresent (v + UXPTE_REFCNT_ONE) = IsUxptePresent v"
  by (simp add: IsUxptePresent_odd UXPTE_REFCNT_ONE_2)

lemma UxpteSub_quiet: "UxpteSub (quiet_cell v) d = quiet_cell (v - d)"
  by (simp add: UxpteSub.simps UxpteLoad_def UxpteCAS_impl_def kernel_window_def quiet_cell_def)

lemma UxpteSub_result:
  "\<exists>old. cell_val (UxpteSub pte d) = old - d \<and>
         old \<in> insert (cell_val pte) {v. Some v \<in> set (cell_sched pte)}"
proof (induction pte d rule: UxpteSub.induct)
  case (1 pte decNum)
  let ?cas = "UxpteCAS_impl pte (UxpteLoad pte) (UxpteLoad pte - decNum)"
  show ?case
  proof (cases "fst ?cas")
    case True
    then show ?thesis
      by (subst UxpteSub.simps)
         (auto simp: Let_def UxpteCAS_impl_def UxpteLoad_def kernel_window_def
               split: list.splits option.splits if_splits)
  next
    case False
    from 1 [OF refl refl False] obtain old where
      o: "cell_val (UxpteSub (snd ?cas) decNum) = old - decNum"
         "old \<in> insert (cell_val (snd ?cas)) {v. Some v \<in> set (cell_sched (snd ?cas))}"
      by blast
    from o(2) False have "old \<in> insert (cell_val pte) {v. Some v \<in> set (cell_sched pte)}"
      by (auto simp: Let_def UxpteCAS_impl_def UxpteLoad_def kernel_window_def
               split: list.splits option.splits if_splits)
    with o(1) False show ?thesis
      by (subst UxpteSub.simps) (auto simp: Let_def)
  qed
qed

lemma wrap_small:
  fixes val :: "64 word"
  assumes "\<not> unat val + 4096 < 2 ^ 64"
  shows "val + 4096 < 4096"
proof -
  have b: "unat val < 2 ^ 64"
    using unsigned_less [of val, where ?'a = nat] by simp
  have "unat (val + 4096) = (unat val + 4096) mod 2 ^ 64"
    by (simp add: unat_word_ariths)
  also have "\<dots> = (unat val + 4096 - 2 ^ 64) mod 2 ^ 64"
    using assms by (simp add: le_mod_geq)
  also have "\<dots> = unat val + 4096 - 2 ^ 64"
    using b by simp
  finally have "unat (val + 4096) < 4096"
    using b by simp
  then show ?thesis
    by (simp add: word_less_nat_alt)
qed

lemma RoundUp_unat:
  "unat val + 4096 < 2 ^ 64 \<Longrightarrow>
   unat (RoundUp val PAGE_SIZE) = ((unat val + 4095) div 4096) * 4096"
proof -
  assume a: "unat val + 4096 < 2 ^ 64"
  have s: "unat (val + 4096) = unat val + 4096"
    using a by (simp add: unat_word_ariths)
  have no: "\<not> (val + 4096 < val \<or> val + 4096 < 4096)"
    using s by (simp add: word_less_nat_alt)
  have s1: "unat (val + 4096 - 1) = unat val + 4095"
    using a by (simp add: unat_word_ariths)
  have d: "unat ((val + 4096 - 1) div 4096) = (unat val + 4095) div 4096"
    using s1 by (simp add: unat_div)
  have "(unat val + 4095) div 4096 * 4096 \<le> unat val + 4095"
    by simp
  with a have "(unat val + 4095) div 4096 * 4096 < 2 ^ 64"
    by linarith
  then have "unat ((val + 4096 - 1) div 4096 * 4096) = (unat val + 4095) div 4096 * 4096"
    using d by (simp add: unat_word_ariths)
  with no show ?thesis
    by (simp add: RoundUp_def PAGE_SIZE_4096)
qed

lemma RoundUp_ge: "val \<le> RoundUp val PAGE_SIZE"
proof (cases "unat val + 4096 < 2 ^ 64")
  case True
  have "(unat val + 4095) mod 4096 < 4096"
    by simp
  moreover have "(unat val + 4095) div 4096 * 4096 + (unat val + 4095) mod 4096
                 = unat val + 4095"
    by simp
  ultimately have "unat val \<le> (unat val + 4095) div 4096 * 4096"
    by linarith
  with RoundUp_unat [OF True] show ?thesis
    by (simp add: word_le_nat_alt)
next
  case False
  from wrap_small [OF False] show ?thesis
    by (simp add: RoundUp_def PAGE_SIZE_4096)
qed

lemma call_func_cong:
  "(\<forall>i<unat n. m1 i = m2 i) \<Longrightarrow>
   fst (call_func f m1 n q) = fst (call_func f m2 n q) \<and>
   (\<forall>i<unat n. snd (call_func f m1 n q) i = snd (call_func f m2 n q) i)"
proof -
  assume a: "\<forall>i<unat n. m1 i = m2 i"
  then have eq: "map m1 [0..<unat n] = map m2 [0..<unat n]"
    by simp
  show ?thesis
    unfolding call_func_def Let_def eq using a by simp
qed

lemma call_func_tail: "unat n \<le> i \<Longrightarrow> snd (call_func f m n q) i = m i"
  by (simp add: call_func_def Let_def)

lemma BuildAll_cong:
  "(\<forall>i<unat n. m1 i = m2 i) \<Longrightarrow>
   fst (PurgMemBuilderBuildAll c m1 n) = fst (PurgMemBuilderBuildAll c m2 n) \<and>
   (\<forall>i<unat n. snd (PurgMemBuilderBuildAll c m1 n) i = snd (PurgMemBuilderBuildAll c m2 n) i)"
proof (induction c arbitrary: m1 m2)
  case Nil
  then show ?case by simp
next
  case (Cons node c)
  from call_func_cong [OF Cons.prems, of "fst node" "snd node"]
  have h: "fst (call_func (fst node) m1 n (snd node)) = fst (call_func (fst node) m2 n (snd node))"
    "\<forall>i<unat n. snd (call_func (fst node) m1 n (snd node)) i
                = snd (call_func (fst node) m2 n (snd node)) i"
    by blast+
  from Cons.IH [OF h(2)] h show ?case
    by (simp add: Let_def)
qed

lemma BuildAll_tail: "unat n \<le> i \<Longrightarrow> snd (PurgMemBuilderBuildAll c m n) i = m i"
  by (induction c arbitrary: m) (simp_all add: Let_def call_func_tail)

lemma IsPurged_builder [simp]: "IsPurged cap (p\<lparr>builder := b\<rparr>) = IsPurged cap p"
  by (simp add: IsPurged_def)

lemma Destroy_skips_builder:
  "builder p = [] \<Longrightarrow> PurgMemDestroy cap env (Some p) = Some r \<Longrightarrow>
   Call_PurgMemBuilderDestroy \<notin> set (snd (snd r))"
  by (auto simp: PurgMemDestroy_def Let_def Option.bind_eq_Some_conv split: if_splits prod.splits)

lemma Destroy_skips_data:
  "dataPtr p = 0 \<Longrightarrow> PurgMemDestroy cap env (Some p) = Some r \<Longrightarrow>
   Call_munmap_dataPtr \<notin> set (snd (snd r))"
  by (auto simp: PurgMemDestroy_def Let_def Option.bind_eq_Some_conv split: if_splits prod.splits)

lemma Destroy_skips_uxpt:
  "uxPageTable p = None \<Longrightarrow> PurgMemDestroy cap env (Some p) = Some r \<Longrightarrow>
   Call_DeinitUxPageTable \<notin> set (snd (snd r)) \<and> Call_free_uxPageTable \<notin> set (snd (snd r))"
  by (auto simp: PurgMemDestroy_def Let_def Option.bind_eq_Some_conv split: if_splits prod.splits)

lemma Destroy_first:
  "IsPurged cap p \<noteq> None \<Longrightarrow>
   \<exists>ok obj calls. PurgMemDestroy cap env (Some p) = Some (ok, obj, calls) \<and>
     ok = (\<not> (builder p \<noteq> [] \<and> \<not> builder_destroy_ok env) \<and>
           \<not> (dataPtr p \<noteq> 0 \<and> munmap_data_ret env \<noteq> 0) \<and>
           \<not> (uxPageTable p \<noteq> None \<and>
              fst (DeinitUxPageTable cap env (uxPageTable p)) \<noteq> PM_OK)) \<and>
     (ok \<longrightarrow> obj = None \<and> Call_free_purgObj \<in> set calls) \<and>
     (\<not> ok \<longrightarrow> Call_free_purgObj \<notin> set calls \<and>
        (\<exists>p'. obj = Some p' \<and>
           builder p' = (if builder_destroy_ok env then [] else builder p) \<and>
           dataPtr p' = (if munmap_data_ret env = 0 then 0 else dataPtr p) \<and>
           uxPageTable p' =
             (if fst (DeinitUxPageTable cap env (uxPageTable p)) = PM_OK then None
              else uxPageTable p)))"
  apply (cases "IsPurged cap p")
   apply simp
  apply (simp add: PurgMemDestroy_def Let_def PurgMemBuilderDestroy_def UxpteIsEnabled_def
           split: prod.splits)
  apply (auto simp: DeinitUxPageTable_def split: option.splits if_splits)
  done

lemma cell_val_quiet [simp]: "cell_val (quiet_cell v) = v"
  by (simp add: quiet_cell_def)

lemma wrap_add2:
  fixes v :: "64 word"
  assumes "\<not> unat v + 2 < 2 ^ 64"
  shows "v + 2 < v"
proof -
  have b: "unat v < 2 ^ 64"
    using unsigned_less [of v, where ?'a = nat] by simp
  have "unat (v + 2) = (unat v + 2) mod 2 ^ 64"
    by (simp add: unat_word_ariths)
  also have "\<dots> = (unat v + 2 - 2 ^ 64) mod 2 ^ 64"
    using assms by (simp add: le_mod_geq)
  also have "\<dots> = unat v + 2 - 2 ^ 64"
    using b by simp
  finally have "unat (v + 2) < unat v"
    using b assms by simp
  then show ?thesis
    by (simp add: word_less_nat_alt)
qed

lemma UxpteAdd_quiet: "UxpteAdd (quiet_cell v) UXPTE_REFCNT_ONE = (quiet_cell (pin_value v), 0)"
proof (cases "unat v + 2 < 2 ^ 64")
  case False
  from wrap_add2 [OF False] show ?thesis
    by (simp add: UxpteAdd.simps UxpteLoad_def UXPTE_REFCNT_ONE_2 pin_value_def)
next
  case True
  then have s: "unat (v + 2) = unat v + 2"
    by (simp add: unat_word_ariths)
  then have 1: "\<not> v + 2 < v" and 2: "\<not> v + 2 < 2"
    by (simp_all add: word_less_nat_alt)
  have "unat (- 1 - v) = unat (- 1 :: 64 word) - unat v"
    by (rule unat_sub) simp
  moreover have "unat (- 1 :: 64 word) = 2 ^ 64 - 1"
    by (simp add: unsigned_minus_1_eq_mask mask_eq_exp_minus_1)
  ultimately have m: "\<not> ULONG_MAX - v < 2"
    using True by (simp add: ULONG_MAX_def word_less_nat_alt)
  have "unat (UXPTE_UNDER_RECLAIM) = 2 ^ 64 - 2"
    by (simp add: UXPTE_UNDER_RECLAIM_def UXPTE_REFCNT_ONE_2)
  with True have u: "v \<noteq> UXPTE_UNDER_RECLAIM"
    by auto
  from 1 2 u m show ?thesis
    by (simp add: UxpteAdd.simps UxpteLoad_def UXPTE_REFCNT_ONE_2 pin_value_def Let_def
          IsUxpteUnderReclaim_def UxpteCAS_impl_def kernel_window_def quiet_cell_def)
qed

lemma UxpteClear_quiet: "UxpteClear_impl (quiet_cell v) = quiet_cell 0"
  by (simp add: UxpteClear_impl_def UxpteClear_loop.simps UxpteLoad_def UxpteCAS_impl_def
        kernel_window_def quiet_cell_def Let_def)

lemma PutUxpteAt_Some:
  "uxpte tab = Some ptes \<Longrightarrow>
   PutUxpteAt tab addr
     = Some (tab\<lparr>uxpte := Some (ptes(GetIndexInUxpte (dataAddr tab) addr :=
                ptes (GetIndexInUxpte (dataAddr tab) addr) - 2))\<rparr>)"
  by (simp add: PutUxpteAt_def UxpteSub_quiet UXPTE_REFCNT_ONE_2 Let_def)

lemma GetUxpteAt_Some:
  "uxpte tab = Some ptes \<Longrightarrow>
   GetUxpteAt tab addr
     = Some (tab\<lparr>uxpte := Some (ptes(GetIndexInUxpte (dataAddr tab) addr :=
                pin_value (ptes (GetIndexInUxpte (dataAddr tab) addr))))\<rparr>)"
  by (simp add: GetUxpteAt_def UxpteAdd_quiet Let_def)

lemma ClearUxpteAt_Some:
  "uxpte tab = Some ptes \<Longrightarrow>
   ClearUxpteAt tab addr
     = Some (tab\<lparr>uxpte := Some (ptes(GetIndexInUxpte (dataAddr tab) addr := 0))\<rparr>)"
  by (simp add: ClearUxpteAt_def UxpteClear_quiet Let_def)

lemma unat_PAGE_SIZE: "unat PAGE_SIZE = 4096"
  by (simp add: PAGE_SIZE_4096)

lemma npages_0: "\<not> off < endAddr \<Longrightarrow> npages off endAddr = 0"
  by (simp add: npages_def unat_PAGE_SIZE word_less_nat_alt)

lemma off_step:
  assumes "off < endAddr" "unat endAddr + 4096 \<le> 2 ^ 64"
  shows "unat (off + PAGE_SIZE) = unat off + 4096"
proof -
  from assms have "unat off + 4096 < 2 ^ 64"
    by (simp add: word_less_nat_alt)
  then show ?thesis
    by (simp add: PAGE_SIZE_4096 unat_word_ariths)
qed

lemma npages_Suc:
  assumes "off < endAddr" "unat endAddr + 4096 \<le> 2 ^ 64"
  shows "npages off endAddr = Suc (npages (off + PAGE_SIZE) endAddr)"
proof -
  from assms(1) have lt: "unat off < unat endAddr"
    by (simp add: word_less_nat_alt)
  define d where "d = unat endAddr - unat off"
  from lt have d: "0 < d"
    by (simp add: d_def)
  have "(d + 4095) div 4096 = Suc ((d - 4096 + 4095) div 4096)"
  proof (cases "4096 \<le> d")
    case True
    define e where "e = d - 4096"
    with True have de: "d = e + 4096" by simp
    have "(e + 4095 + 4096) div 4096 = (e + 4095) div 4096 + 1"
      by (rule div_add_self2) simp
    then show ?thesis
      by (simp add: de)
  next
    case False
    with d have "(d + 4095) div 4096 = 1"
      by (simp add: div_nat_eqI)
    moreover from False have "(d - 4096 + 4095) div 4096 = 0" by simp
    ultimately show ?thesis by simp
  qed
  moreover have "npages off endAddr = (d + 4095) div 4096"
    by (simp add: npages_def unat_PAGE_SIZE d_def)
  moreover have "npages (off + PAGE_SIZE) endAddr = (d - 4096 + 4095) div 4096"
    using off_step [OF assms] by (simp add: npages_def unat_PAGE_SIZE d_def)
  ultimately show ?thesis
    by simp
qed

lemma npages_pos: "off < endAddr \<Longrightarrow> unat endAddr + 4096 \<le> 2 ^ 64 \<Longrightarrow> npages off endAddr \<noteq> 0"
  by (simp add: npages_Suc)

lemma loop_gen:
  assumes e: "unat endAddr + 4096 \<le> 2 ^ 64"
    and step: "\<And>off tab. off < endAddr \<Longrightarrow>
       UxpteOps_loop op off endAddr tab
         = Option.bind (f tab off) (UxpteOps_loop op (off + PAGE_SIZE) endAddr)"
  shows "UxpteOps_loop op off endAddr tab
         = map_option (Pair PM_OK) (ops_on_pages f (page_range off endAddr) tab)"
proof (induction "npages off endAddr" arbitrary: off tab)
  case 0
  have "\<not> off < endAddr"
  proof
    assume "off < endAddr"
    from npages_pos [OF this e] 0 show False
      by simp
  qed
  with 0 show ?case
    by (subst UxpteOps_loop.simps) (simp add: page_range_def)
next
  case (Suc n)
  have lt: "off < endAddr"
  proof (rule ccontr)
    assume "\<not> off < endAddr"
    from npages_0 [OF this] Suc(2) show False
      by simp
  qed
  from npages_Suc [OF lt e] Suc(2) have n: "n = npages (off + PAGE_SIZE) endAddr"
    by simp
  have pr: "page_range off endAddr = off # page_range (off + PAGE_SIZE) endAddr"
    using npages_Suc [OF lt e] by (simp add: page_range_def)
  have "UxpteOps_loop op off endAddr tab
        = Option.bind (f tab off) (UxpteOps_loop op (off + PAGE_SIZE) endAddr)"
    by (rule step [OF lt])
  also have "\<dots> = Option.bind (f tab off)
       (\<lambda>u. map_option (Pair PM_OK) (ops_on_pages f (page_range (off + PAGE_SIZE) endAddr) u))"
  proof -
    have "UxpteOps_loop op (off + PAGE_SIZE) endAddr
          = (\<lambda>u. map_option (Pair PM_OK)
                   (ops_on_pages f (page_range (off + PAGE_SIZE) endAddr) u))"
      by (rule ext) (rule Suc(1) [OF n])
    then show ?thesis
      by simp
  qed
  also have "\<dots> = map_option (Pair PM_OK) (ops_on_pages f (page_range off endAddr) tab)"
    by (simp add: pr split: Option.bind_splits)
  finally show ?case .
qed

lemma loop_get:
  "unat endAddr + 4096 \<le> 2 ^ 64 \<Longrightarrow>
   UxpteOps_loop UPT_GET off endAddr tab
     = map_option (Pair PM_OK) (ops_on_pages GetUxpteAt (page_range off endAddr) tab)"
  by (rule loop_gen, assumption, subst UxpteOps_loop.simps) simp

lemma loop_put:
  "unat endAddr + 4096 \<le> 2 ^ 64 \<Longrightarrow>
   UxpteOps_loop UPT_PUT off endAddr tab
     = map_option (Pair PM_OK) (ops_on_pages PutUxpteAt (page_range off endAddr) tab)"
  by (rule loop_gen, assumption, subst UxpteOps_loop.simps) simp

lemma loop_clear:
  "unat endAddr + 4096 \<le> 2 ^ 64 \<Longrightarrow>
   UxpteOps_loop UPT_CLEAR off endAddr tab
     = map_option (Pair PM_OK) (ops_on_pages ClearUxpteAt (page_range off endAddr) tab)"
  by (rule loop_gen, assumption, subst UxpteOps_loop.simps) simp

lemma loop_present:
  assumes e: "unat endAddr + 4096 \<le> 2 ^ 64"
  shows "UxpteOps_loop UPT_IS_PRESENT off endAddr tab
         = map_option (\<lambda>r. (r, tab)) (present_on_pages (page_range off endAddr) tab)"
proof (induction "npages off endAddr" arbitrary: off)
  case 0
  have "\<not> off < endAddr"
  proof
    assume "off < endAddr"
    from npages_pos [OF this e] 0 show False
      by simp
  qed
  with 0 show ?case
    by (subst UxpteOps_loop.simps) (simp add: page_range_def)
next
  case (Suc n)
  have lt: "off < endAddr"
  proof (rule ccontr)
    assume "\<not> off < endAddr"
    from npages_0 [OF this] Suc(2) show False
      by simp
  qed
  from npages_Suc [OF lt e] Suc(2) have n: "n = npages (off + PAGE_SIZE) endAddr"
    by simp
  have pr: "page_range off endAddr = off # page_range (off + PAGE_SIZE) endAddr"
    using npages_Suc [OF lt e] by (simp add: page_range_def)
  show ?case
    using lt Suc(1) [OF n]
    by (subst UxpteOps_loop.simps)
       (simp add: pr split: Option.bind_splits)
qed

lemma ops_on_pages_explicit:
  assumes f: "\<And>t ptes off. uxpte t = Some ptes \<Longrightarrow>
     f t off = Some (t\<lparr>uxpte := Some (ptes(GetIndexInUxpte (dataAddr t) off :=
                        g (ptes (GetIndexInUxpte (dataAddr t) off))))\<rparr>)"
  shows "uxpte tab = Some ptes \<Longrightarrow>
     ops_on_pages f pages tab
       = Some (tab\<lparr>uxpte := Some (map_descriptors g (dataAddr tab) pages ptes)\<rparr>)"
proof (induction pages arbitrary: tab ptes)
  case Nil
  then show ?case
    by (simp add: map_descriptors_def)
next
  case (Cons off pages)
  let ?i = "GetIndexInUxpte (dataAddr tab) off"
  let ?t = "tab\<lparr>uxpte := Some (ptes(?i := g (ptes ?i)))\<rparr>"
  have u: "uxpte ?t = Some (ptes(?i := g (ptes ?i)))"
    by simp
  have "ops_on_pages f (off # pages) tab = ops_on_pages f pages ?t"
    using f [OF Cons.prems, of off] by simp
  also have "\<dots> = Some (?t\<lparr>uxpte := Some (map_descriptors g (dataAddr ?t) pages
                                             (ptes(?i := g (ptes ?i))))\<rparr>)"
    by (rule Cons.IH [OF u])
  also have "\<dots> = Some (tab\<lparr>uxpte := Some (map_descriptors g (dataAddr tab) (off # pages) ptes)\<rparr>)"
    by (simp add: map_descriptors_def)
  finally show ?case .
qed

lemma ops_on_pages_get:
  "uxpte tab = Some ptes \<Longrightarrow>
   ops_on_pages GetUxpteAt pages tab
     = Some (tab\<lparr>uxpte := Some (map_descriptors pin_value (dataAddr tab) pages ptes)\<rparr>)"
  by (rule ops_on_pages_explicit) (rule GetUxpteAt_Some)

lemma ops_on_pages_put:
  "uxpte tab = Some ptes \<Longrightarrow>
   ops_on_pages PutUxpteAt pages tab
     = Some (tab\<lparr>uxpte := Some (map_descriptors (\<lambda>v. v - 2) (dataAddr tab) pages ptes)\<rparr>)"
  by (rule ops_on_pages_explicit) (rule PutUxpteAt_Some)

lemma ops_on_pages_clear:
  "uxpte tab = Some ptes \<Longrightarrow>
   ops_on_pages ClearUxpteAt pages tab
     = Some (tab\<lparr>uxpte := Some (map_descriptors (\<lambda>v. 0) (dataAddr tab) pages ptes)\<rparr>)"
  by (rule ops_on_pages_explicit) (rule ClearUxpteAt_Some)

lemma present_on_pages_explicit:
  "uxpte tab = Some ptes \<Longrightarrow>
   present_on_pages pages tab
     = Some (if list_all (\<lambda>off. IsUxptePresent (ptes (GetIndexInUxpte (dataAddr tab) off))) pages
             then PM_OK else PM_UXPT_NO_PRESENT)"
  by (induction pages) (simp_all add: IsPresentAt_def Let_def)

lemma map_descriptors_other:
  "i \<notin> GetIndexInUxpte d ` set pages \<Longrightarrow> map_descriptors g d pages ptes i = ptes i"
  unfolding map_descriptors_def
  by (induction pages arbitrary: ptes) simp_all

lemma map_descriptors_at:
  "distinct (map (GetIndexInUxpte d) pages) \<Longrightarrow> off \<in> set pages \<Longrightarrow>
   map_descriptors g d pages ptes (GetIndexInUxpte d off) = g (ptes (GetIndexInUxpte d off))"
proof (induction pages arbitrary: ptes)
  case Nil
  then show ?case by simp
next
  case (Cons a pages)
  let ?p = "ptes(GetIndexInUxpte d a := g (ptes (GetIndexInUxpte d a)))"
  have step: "map_descriptors g d (a # pages) ptes = map_descriptors g d pages ?p"
    by (simp add: map_descriptors_def)
  show ?case
  proof (cases "GetIndexInUxpte d off = GetIndexInUxpte d a")
    case True
    with Cons.prems(1) have "GetIndexInUxpte d off \<notin> GetIndexInUxpte d ` set pages"
      by simp
    from map_descriptors_other [OF this, of g ?p]
    have "map_descriptors g d pages ?p (GetIndexInUxpte d off) = ?p (GetIndexInUxpte d off)" .
    moreover have "?p (GetIndexInUxpte d off) = g (ptes (GetIndexInUxpte d off))"
      using True by simp
    ultimately show ?thesis
      by (simp only: step)
  next
    case False
    with Cons.prems have "off \<in> set pages" "distinct (map (GetIndexInUxpte d) pages)"
      by auto
    from Cons.IH [OF this(2) this(1), of ?p]
    have "map_descriptors g d pages ?p (GetIndexInUxpte d off) = g (?p (GetIndexInUxpte d off))" .
    moreover have "?p (GetIndexInUxpte d off) = ptes (GetIndexInUxpte d off)"
      using False by simp
    ultimately show ?thesis
      by (simp only: step)
  qed
qed

lemma VirtPageNo_unat: "unat (VirtPageNo v) = unat v div 4096"
  by (simp add: VirtPageNo_def PAGE_SHIFT_def drop_bit_eq_div unat_div)

lemma index_eq_iff:
  "GetIndexInUxpte d x = GetIndexInUxpte d y \<longleftrightarrow> unat x div 4096 = unat y div 4096"
proof -
  have "GetIndexInUxpte d x = GetIndexInUxpte d y \<longleftrightarrow> VirtPageNo x = VirtPageNo y"
    by (simp add: GetIndexInUxpte_def)
  also have "\<dots> \<longleftrightarrow> unat (VirtPageNo x) = unat (VirtPageNo y)"
    by (simp add: word_unat_eq_iff)
  finally show ?thesis
    by (simp add: VirtPageNo_unat)
qed

lemma pages_from_unat:
  "unat off + n * 4096 \<le> 2 ^ 64 \<Longrightarrow> x \<in> set (pages_from off n) \<Longrightarrow>
   \<exists>k<n. unat x = unat off + k * 4096"
proof (induction n arbitrary: off)
  case 0
  then show ?case by simp
next
  case (Suc n)
  show ?case
  proof (cases "x = off")
    case True
    then show ?thesis by auto
  next
    case False
    with Suc.prems(2) have x: "x \<in> set (pages_from (off + PAGE_SIZE) n)"
      by simp
    then have "n \<noteq> 0"
      by (cases n) auto
    with Suc.prems(1) have "unat off + 4096 < 2 ^ 64"
      by (cases n) auto
    then have s: "unat (off + PAGE_SIZE) = unat off + 4096"
      by (simp add: PAGE_SIZE_4096 unat_word_ariths)
    with Suc.prems(1) have "unat (off + PAGE_SIZE) + n * 4096 \<le> 2 ^ 64"
      by simp
    from Suc.IH [OF this x] obtain k where "k < n" "unat x = unat (off + PAGE_SIZE) + k * 4096"
      by blast
    with s have "Suc k < Suc n \<and> unat x = unat off + Suc k * 4096"
      by simp
    then show ?thesis
      by blast
  qed
qed

lemma distinct_pages_from:
  "unat off + n * 4096 \<le> 2 ^ 64 \<Longrightarrow> distinct (map (GetIndexInUxpte d) (pages_from off n))"
proof (induction n arbitrary: off)
  case 0
  then show ?case by simp
next
  case (Suc n)
  show ?case
  proof (cases n)
    case 0
    then show ?thesis by simp
  next
    case (Suc m)
    with Suc.prems have "unat off + 4096 < 2 ^ 64"
      by simp
    then have s: "unat (off + PAGE_SIZE) = unat off + 4096"
      by (simp add: PAGE_SIZE_4096 unat_word_ariths)
    with Suc.prems have b: "unat (off + PAGE_SIZE) + n * 4096 \<le> 2 ^ 64"
      by simp
    have "GetIndexInUxpte d off \<noteq> GetIndexInUxpte d x"
      if "x \<in> set (pages_from (off + PAGE_SIZE) n)" for x
    proof -
      from pages_from_unat [OF b that] s obtain k where "unat x = unat off + 4096 + k * 4096"
        by auto
      then have "unat x div 4096 = unat off div 4096 + 1 + k"
        by simp
      then show ?thesis
        by (simp add: index_eq_iff)
    qed
    with Suc.IH [OF b] show ?thesis
      by auto
  qed
qed

lemma npages_bound:
  assumes "unat endAddr + 4096 \<le> 2 ^ 64"
  shows "unat start + npages start endAddr * 4096 \<le> 2 ^ 64"
proof -
  have a: "npages start endAddr * 4096 \<le> unat endAddr - unat start + 4095"
    by (simp add: npages_def unat_PAGE_SIZE)
  have b: "unat start < 2 ^ 64"
    using unsigned_less [of start, where ?'a = nat] by simp
  from a b show ?thesis
  proof (cases "unat start \<le> unat endAddr")
    case True
    with a assms show ?thesis by simp
  next
    case False
    then have "npages start endAddr = 0"
      by (simp add: npages_def unat_PAGE_SIZE)
    with b show ?thesis by simp
  qed
qed

lemma distinct_page_range:
  "unat endAddr + 4096 \<le> 2 ^ 64 \<Longrightarrow>
   distinct (map (GetIndexInUxpte d) (page_range start endAddr))"
  unfolding page_range_def by (rule distinct_pages_from) (rule npages_bound)

lemma end_bound:
  assumes "\<not> hi < endAddr" "hi \<le> - PAGE_SIZE"
  shows "unat endAddr + 4096 \<le> 2 ^ 64"
proof -
  have "unat (- PAGE_SIZE) = 2 ^ 64 - 4096"
    by (simp add: PAGE_SIZE_4096)
  with assms show ?thesis
    by (simp add: word_le_nat_alt word_less_nat_alt)
qed

lemma UxpteOps_out_range:
  "RoundDown addr PAGE_SIZE < dataAddr t \<or>
   dataAddr t + dataSize t < RoundUp (addr + len) PAGE_SIZE \<Longrightarrow>
   UxpteOps (Some t) addr len op = Some (PM_UXPT_OUT_RANGE, Some t)"
  by (auto simp: UxpteOps_def Let_def)

lemma UxpteOps_in_range:
  assumes r: "\<not> (RoundDown addr PAGE_SIZE < dataAddr t \<or>
               dataAddr t + dataSize t < RoundUp (addr + len) PAGE_SIZE)"
    and m: "uxpte t = Some ptes"
    and hi: "dataAddr t + dataSize t \<le> - PAGE_SIZE"
  shows "UxpteOps (Some t) addr len op =
     Some (case op of
        UPT_GET \<Rightarrow> (PM_OK, Some (t\<lparr>uxpte := Some (map_descriptors pin_value (dataAddr t)
            (page_range (RoundDown addr PAGE_SIZE) (RoundUp (addr + len) PAGE_SIZE)) ptes)\<rparr>))
      | UPT_PUT \<Rightarrow> (PM_OK, Some (t\<lparr>uxpte := Some (map_descriptors (\<lambda>v. v - 2) (dataAddr t)
            (page_range (RoundDown addr PAGE_SIZE) (RoundUp (addr + len) PAGE_SIZE)) ptes)\<rparr>))
      | UPT_CLEAR \<Rightarrow> (PM_OK, Some (t\<lparr>uxpte := Some (map_descriptors (\<lambda>v. 0) (dataAddr t)
            (page_range (RoundDown addr PAGE_SIZE) (RoundUp (addr + len) PAGE_SIZE)) ptes)\<rparr>))
      | UPT_IS_PRESENT \<Rightarrow>
          (if list_all (\<lambda>off. IsUxptePresent (ptes (GetIndexInUxpte (dataAddr t) off)))
                (page_range (RoundDown addr PAGE_SIZE) (RoundUp (addr + len) PAGE_SIZE))
           then PM_OK else PM_UXPT_NO_PRESENT, Some t))"
proof -
  from r have "\<not> dataAddr t + dataSize t < RoundUp (addr + len) PAGE_SIZE"
    by simp
  from end_bound [OF this hi]
  have e: "unat (RoundUp (addr + len) PAGE_SIZE) + 4096 \<le> 2 ^ 64" .
  show ?thesis
    using r
    by (cases op)
       (simp_all add: UxpteOps_def Let_def loop_get [OF e] loop_put [OF e] loop_clear [OF e]
          loop_present [OF e] ops_on_pages_get [OF m] ops_on_pages_put [OF m]
          ops_on_pages_clear [OF m] present_on_pages_explicit [OF m])
qed

lemma IsPurged_rwlock [simp]: "IsPurged cap (p\<lparr>rwlock := l\<rparr>) = IsPurged cap p"
  by (simp add: IsPurged_def)

lemma UxpteIsPresent_in_range:
  assumes "\<not> (RoundDown addr PAGE_SIZE < dataAddr t \<or>
               dataAddr t + dataSize t < RoundUp (addr + len) PAGE_SIZE)"
    "uxpte t = Some ptes" "dataAddr t + dataSize t \<le> - PAGE_SIZE"
  shows "UxpteIsPresent True (Some t) addr len
     = Some (list_all (\<lambda>off. IsUxptePresent (ptes (GetIndexInUxpte (dataAddr t) off)))
               (page_range (RoundDown addr PAGE_SIZE) (RoundUp (addr + len) PAGE_SIZE)))"
  using UxpteOps_in_range [OF assms, of UPT_IS_PRESENT]
  by (simp add: UxpteIsPresent_def)

lemma Destroy_calls_rwlock:
  "PurgMemDestroy cap env (Some p) = Some r \<Longrightarrow>
   Call_pthread_rwlock_destroy \<in> set (snd (snd r))"
  by (auto simp: PurgMemDestroy_def Let_def Option.bind_eq_Some_conv split: if_splits prod.splits)



lemma BuildData_fields [simp]:
  "dataPtr (snd (PurgMemBuildData cap p)) = dataPtr p"
  "dataSizeInput (snd (PurgMemBuildData cap p)) = dataSizeInput p"
  "builder (snd (PurgMemBuildData cap p)) = builder p"
  "rwlock (snd (PurgMemBuildData cap p)) = rwlock p"
  by (simp_all add: PurgMemBuildData_def Let_def)

lemma BuildData_count:
  "buildDataCount (snd (PurgMemBuildData cap p))
     = (if fst (PurgMemBuildData cap p) then buildDataCount p + 1 else buildDataCount p)"
  by (simp add: PurgMemBuildData_def Let_def)

lemma BuildData_rwlock:
  "PurgMemBuildData cap (p\<lparr>rwlock := l\<rparr>)
     = (fst (PurgMemBuildData cap p), (snd (PurgMemBuildData cap p))\<lparr>rwlock := l\<rparr>)"
  by (simp add: PurgMemBuildData_def Let_def)

lemma TryBeginRead_purged:
  "\<not> writer (rwlock p) \<Longrightarrow> IsPurged cap p = Some True \<Longrightarrow>
   TryBeginRead cap p = Some (PM_DATA_PURGED, p)"
  by (simp add: TryBeginRead_def Let_def pthread_rwlock_rdlock_def pthread_rwlock_unlock_def)

lemma TryBeginRead_not_purged:
  "\<not> writer (rwlock p) \<Longrightarrow> IsPurged cap p = Some False \<Longrightarrow>
   TryBeginRead cap p
     = Some (PM_DATA_NO_PURGED, p\<lparr>rwlock := (rwlock p)\<lparr>readers := readers (rwlock p) + 1\<rparr>\<rparr>)"
  by (simp add: TryBeginRead_def Let_def pthread_rwlock_rdlock_def)

lemma BeginReadBuildData_free:
  "rwlock p = rwlock_free \<Longrightarrow> IsPurged cap p = Some True \<Longrightarrow>
   BeginReadBuildData cap p
     = Some (if fst (PurgMemBuildData cap p) then PMB_BUILD_ALL_SUCC else PMB_BUILD_ALL_FAIL,
             snd (PurgMemBuildData cap p))"
proof -
  assume l: "rwlock p = rwlock_free" and i: "IsPurged cap p = Some True"
  have w: "pthread_rwlock_wrlock (rwlock p) = (0, \<lparr>readers = 0, writer = True\<rparr>)"
    by (simp add: l rwlock_free_def pthread_rwlock_wrlock_def)
  have u: "pthread_rwlock_unlock \<lparr>readers = 0, writer = True\<rparr> = (0, rwlock p)"
    by (simp add: l rwlock_free_def pthread_rwlock_unlock_def)
  have restore: "(snd (PurgMemBuildData cap p))\<lparr>rwlock := rwlock p\<rparr> = snd (PurgMemBuildData cap p)"
    by (simp add: PurgMemBuildData_def Let_def)
  show ?thesis
    by (simp add: BeginReadBuildData_def Let_def w i BuildData_rwlock u restore)
qed

lemma BeginRead_loop_first:
  assumes count: "buildDataCount p = 0" and lock: "rwlock p = rwlock_free"
    and ok: "fst (PurgMemBuildData cap p)"
    and present: "UxpteIsPresent cap (uxPageTable (snd (PurgMemBuildData cap p)))
                    (dataPtr p) (dataSizeInput p) = Some True"
  shows "PurgMemBeginRead_loop cap p
     = Some (True, PM_DATA_NO_PURGED,
             (snd (PurgMemBuildData cap p))\<lparr>rwlock := \<lparr>readers = 1, writer = False\<rparr>\<rparr>)"
proof -
  let ?q = "snd (PurgMemBuildData cap p)"
  have i0: "IsPurged cap p = Some True"
    by (simp add: IsPurged_def count)
  have nw: "\<not> writer (rwlock p)"
    by (simp add: lock rwlock_free_def)
  have c1: "buildDataCount ?q = 1"
    by (simp add: BuildData_count ok count)
  then have i1: "IsPurged cap ?q = Some False"
    by (simp add: IsPurged_def present)
  have nw1: "\<not> writer (rwlock ?q)"
    by (simp add: nw)
  have "PurgMemBeginRead_loop cap p = PurgMemBeginRead_loop cap ?q"
    by (subst PurgMemBeginRead_loop.simps)
       (simp add: TryBeginRead_purged [OF nw i0] BeginReadBuildData_free [OF lock i0] ok)
  also have "\<dots> = Some (True, PM_DATA_NO_PURGED, ?q\<lparr>rwlock := \<lparr>readers = 1, writer = False\<rparr>\<rparr>)"
    by (subst PurgMemBeginRead_loop.simps)
       (simp add: TryBeginRead_not_purged [OF nw1 i1] lock rwlock_free_def)
  finally show ?thesis .
qed

lemma BeginRead_loop_first_fails:
  assumes count: "buildDataCount p = 0" and lock: "rwlock p = rwlock_free"
    and ko: "\<not> fst (PurgMemBuildData cap p)"
  shows "PurgMemBeginRead_loop cap p
     = Some (False, PMB_BUILD_ALL_FAIL, snd (PurgMemBuildData cap p))"
proof -
  have i0: "IsPurged cap p = Some True"
    by (simp add: IsPurged_def count)
  have nw: "\<not> writer (rwlock p)"
    by (simp add: lock rwlock_free_def)
  show ?thesis
    by (subst PurgMemBeginRead_loop.simps)
       (simp add: TryBeginRead_purged [OF nw i0] BeginReadBuildData_free [OF lock i0] ko)
qed

lemma BeginRead_loop_fast:
  assumes "\<not> writer (rwlock p)" "IsPurged cap p = Some False"
  shows "PurgMemBeginRead_loop cap p
     = Some (True, PM_DATA_NO_PURGED,
             p\<lparr>rwlock := (rwlock p)\<lparr>readers := readers (rwlock p) + 1\<rparr>\<rparr>)"
  by (subst PurgMemBeginRead_loop.simps) (simp add: TryBeginRead_not_purged [OF assms])















text \<open>The reference count of a descriptor is what lies above the present flag.\<close>

lemma refcount_or_1: "drop_bit 1 (v OR 1) = drop_bit 1 (v :: uxpte_t)"
  by (simp add: drop_bit_or)

lemma or_1_or_1: "(v OR 1) OR 1 = (v :: uxpte_t) OR 1"
  by (simp add: or.assoc)

lemma pin_or_1: "(v + 2) OR 1 = (v OR 1) + (2 :: uxpte_t)"
  by (simp add: or_one_eq)

lemma refcount_get_put:
  assumes "\<not> v + 2 < (v :: uxpte_t)" "x = pin_value v \<or> x = pin_value v OR 1"
  shows "drop_bit 1 (x - 2) = drop_bit 1 v"
proof -
  from assms(1) have p: "pin_value v = v + 2"
    by (simp add: pin_value_def)
  from assms(2) show ?thesis
  proof
    assume "x = pin_value v"
    then show ?thesis
      by (simp add: p)
  next
    assume "x = pin_value v OR 1"
    then have "x - 2 = v OR 1"
      by (simp add: p pin_or_1)
    then show ?thesis
      by (simp add: refcount_or_1)
  qed
qed

lemma map_descriptors_Cons:
  "map_descriptors g d (off # pages) ptes
     = map_descriptors g d pages
         (ptes(GetIndexInUxpte d off := g (ptes (GetIndexInUxpte d off))))"
  by (simp add: map_descriptors_def)

lemma map_descriptors_or_1:
  "map_descriptors (\<lambda>v. v OR 1) d pages ptes i = ptes i \<or>
   map_descriptors (\<lambda>v. v OR 1) d pages ptes i = ptes i OR 1"
proof (induction pages arbitrary: ptes)
  case Nil
  show ?case
    by (simp add: map_descriptors_def)
next
  case (Cons off pages)
  define q where "q = ptes(GetIndexInUxpte d off := ptes (GetIndexInUxpte d off) OR 1)"
  have step: "map_descriptors (\<lambda>v. v OR 1) d (off # pages) ptes
                = map_descriptors (\<lambda>v. v OR 1) d pages q"
    unfolding q_def by (rule map_descriptors_Cons)
  have qi: "q i = ptes i \<or> q i = ptes i OR 1"
    by (simp add: q_def)
  from Cons [of q] qi show ?case
    unfolding step by (auto simp: or_1_or_1)
qed

lemma kernel_populate_sets_present:
  assumes "uxpte t = Some ptes"
  shows "\<exists>ptes'. kernel_populate cap (Some t) addr len = Some (t\<lparr>uxpte := Some ptes'\<rparr>) \<and>
           (\<forall>i. ptes' i = ptes i \<or> ptes' i = ptes i OR 1)"
proof (cases cap)
  case False
  have "t\<lparr>uxpte := Some ptes\<rparr> = t"
    using assms by simp
  with False show ?thesis
    by (auto simp: kernel_populate_def intro!: exI [of _ ptes])
next
  case True
  let ?m = "map_descriptors (\<lambda>v. v OR 1) (dataAddr t)
              (page_range (RoundDown addr PAGE_SIZE) (RoundUp (addr + len) PAGE_SIZE)) ptes"
  have "kernel_populate cap (Some t) addr len = Some (t\<lparr>uxpte := Some ?m\<rparr>)"
    using True assms by (simp add: kernel_populate_def)
  moreover have "\<forall>i. ?m i = ptes i \<or> ?m i = ptes i OR 1"
    by (rule allI) (rule map_descriptors_or_1)
  ultimately show ?thesis
    by (intro exI [of _ ?m] conjI)
qed

text \<open>One round of the loop of \<open>PurgMemBeginRead\<close> that does not end in a read session.\<close>

lemma TryBeginRead_keeps:
  "TryBeginRead cap p = Some t \<Longrightarrow> fst t \<noteq> PM_DATA_NO_PURGED \<Longrightarrow> snd t = p"
  by (auto simp: TryBeginRead_def Let_def pthread_rwlock_rdlock_def pthread_rwlock_unlock_def
        EDEADLK_def EPERM_def Option.bind_eq_Some_conv split: if_splits)

lemma BuildData_table_cases:
  "uxPageTable (snd (PurgMemBuildData cap p)) = uxPageTable p \<or>
   uxPageTable (snd (PurgMemBuildData cap p))
     = kernel_populate cap (uxPageTable p) (dataPtr p) (dataSizeInput p)"
  by (simp add: PurgMemBuildData_def Let_def)

lemma BeginReadBuildData_keeps:
  assumes "BeginReadBuildData cap p = Some b"
  shows "rwlock (snd b) = rwlock p \<and> dataPtr (snd b) = dataPtr p \<and>
         dataSizeInput (snd b) = dataSizeInput p \<and>
         (uxPageTable (snd b) = uxPageTable p \<or>
          uxPageTable (snd b)
            = kernel_populate cap (uxPageTable p) (dataPtr p) (dataSizeInput p))"
proof (cases "writer (rwlock p) \<or> 0 < readers (rwlock p)")
  case True
  with assms show ?thesis
    by (auto simp: BeginReadBuildData_def pthread_rwlock_wrlock_def EDEADLK_def)
next
  case False
  then have restore: "(rwlock p)\<lparr>writer := False\<rparr> = rwlock p"
    by simp
  from assms False obtain purged where ip: "IsPurged cap p = Some purged"
    by (auto simp: BeginReadBuildData_def pthread_rwlock_wrlock_def Let_def
          Option.bind_eq_Some_conv)
  show ?thesis
  proof (cases purged)
    case True
    with assms False ip
    have "snd b = (snd (PurgMemBuildData cap p))\<lparr>rwlock := (rwlock p)\<lparr>writer := False\<rparr>\<rparr>"
      by (auto simp: BeginReadBuildData_def pthread_rwlock_wrlock_def
            pthread_rwlock_unlock_def Let_def BuildData_rwlock split: if_splits)
    with restore BuildData_table_cases [of cap p] show ?thesis
      by auto
  next
    case no: False
    with assms False ip
    have "snd b = p\<lparr>rwlock := (rwlock p)\<lparr>writer := False\<rparr>\<rparr>"
      by (auto simp: BeginReadBuildData_def pthread_rwlock_wrlock_def
            pthread_rwlock_unlock_def Let_def split: if_splits)
    with restore show ?thesis
      by simp
  qed
qed

text \<open>
  A call of the loop of \<open>PurgMemBeginRead\<close> that returns \<open>false\<close> leaves the lock as
  it was; the descriptors differ at most by present flags that the kernel set.
\<close>

lemma BeginRead_loop_false:
  assumes "PurgMemBeginRead_loop cap p = Some res"
  shows "\<not> fst res \<longrightarrow>
     rwlock (snd (snd res)) = rwlock p \<and> dataPtr (snd (snd res)) = dataPtr p \<and>
     dataSizeInput (snd (snd res)) = dataSizeInput p \<and>
     (\<forall>t ptes. uxPageTable p = Some t \<and> uxpte t = Some ptes \<longrightarrow>
        (\<exists>ptes'. uxPageTable (snd (snd res)) = Some (t\<lparr>uxpte := Some ptes'\<rparr>) \<and>
                 (\<forall>i. ptes' i = ptes i \<or> ptes' i = ptes i OR 1)))"
proof -
  let ?Q = "\<lambda>(a :: 'a PurgMem) (b :: 'a PurgMem).
     rwlock b = rwlock a \<and> dataPtr b = dataPtr a \<and> dataSizeInput b = dataSizeInput a \<and>
     (\<forall>t ptes. uxPageTable a = Some t \<and> uxpte t = Some ptes \<longrightarrow>
        (\<exists>ptes'. uxPageTable b = Some (t\<lparr>uxpte := Some ptes'\<rparr>) \<and>
                 (\<forall>i. ptes' i = ptes i \<or> ptes' i = ptes i OR 1)))"
  let ?P = "\<lambda>(c :: bool) (a :: 'a PurgMem) (y :: bool \<times> PMState \<times> 'a PurgMem).
              \<not> fst y \<longrightarrow> ?Q a (snd (snd y))"
  have refl: "?Q a a" for a
  proof (intro conjI allI impI)
    fix t ptes
    assume a: "uxPageTable a = Some t \<and> uxpte t = Some ptes"
    then have "t\<lparr>uxpte := Some ptes\<rparr> = t"
      by simp
    with a show "\<exists>ptes'. uxPageTable a = Some (t\<lparr>uxpte := Some ptes'\<rparr>) \<and>
                 (\<forall>i. ptes' i = ptes i \<or> ptes' i = ptes i OR 1)"
      by (intro exI [of _ ptes]) simp
  qed simp_all
  have build: "?Q a (snd b)" if "BeginReadBuildData c a = Some b" for c a b
  proof (intro conjI allI impI)
    note K = BeginReadBuildData_keeps [OF that]
    from K show "rwlock (snd b) = rwlock a" "dataPtr (snd b) = dataPtr a"
      "dataSizeInput (snd b) = dataSizeInput a"
      by simp_all
    fix t ptes
    assume a: "uxPageTable a = Some t \<and> uxpte t = Some ptes"
    from K have "uxPageTable (snd b) = uxPageTable a \<or>
       uxPageTable (snd b) = kernel_populate c (uxPageTable a) (dataPtr a) (dataSizeInput a)"
      by simp
    then show "\<exists>ptes'. uxPageTable (snd b) = Some (t\<lparr>uxpte := Some ptes'\<rparr>) \<and>
                 (\<forall>i. ptes' i = ptes i \<or> ptes' i = ptes i OR 1)"
    proof
      assume "uxPageTable (snd b) = uxPageTable a"
      with refl [of a] a show ?thesis
        by simp
    next
      assume "uxPageTable (snd b)
                = kernel_populate c (uxPageTable a) (dataPtr a) (dataSizeInput a)"
      with kernel_populate_sets_present [of t ptes c "dataPtr a" "dataSizeInput a"] a
      show ?thesis
        by simp
    qed
  qed
  have trans: "?Q a c" if ab: "?Q a b" and bc: "?Q b c" for a b c
  proof (intro conjI allI impI)
    from ab bc show "rwlock c = rwlock a" "dataPtr c = dataPtr a"
      "dataSizeInput c = dataSizeInput a"
      by simp_all
    fix t ptes
    assume a: "uxPageTable a = Some t \<and> uxpte t = Some ptes"
    with ab obtain p1 where p1: "uxPageTable b = Some (t\<lparr>uxpte := Some p1\<rparr>)"
      "\<forall>i. p1 i = ptes i \<or> p1 i = ptes i OR 1"
      by blast
    have "uxpte (t\<lparr>uxpte := Some p1\<rparr>) = Some p1"
      by simp
    with bc p1(1) obtain p2 where
      p2: "uxPageTable c = Some (t\<lparr>uxpte := Some p1\<rparr>\<lparr>uxpte := Some p2\<rparr>)"
      "\<forall>i. p2 i = p1 i \<or> p2 i = p1 i OR 1"
      by blast
    have "p2 i = ptes i \<or> p2 i = ptes i OR 1" for i
      using p1(2) [rule_format, of i] p2(2) [rule_format, of i] by (auto simp: or_1_or_1)
    with p2(1) show "\<exists>ptes'. uxPageTable c = Some (t\<lparr>uxpte := Some ptes'\<rparr>) \<and>
                 (\<forall>i. ptes' i = ptes i \<or> ptes' i = ptes i OR 1)"
      by (intro exI [of _ p2]) simp
  qed
  have "?P cap p res"
  proof (rule PurgMemBeginRead_loop.raw_induct [where P = ?P, OF _ assms])
    fix loop :: "bool \<Rightarrow> 'a PurgMem \<Rightarrow> (bool \<times> PMState \<times> 'a PurgMem) option"
      and c :: bool and a :: "'a PurgMem" and y :: "bool \<times> PMState \<times> 'a PurgMem"
    assume IH: "\<And>c a y. loop c a = Some y \<Longrightarrow> ?P c a y"
      and body: "Option.bind (TryBeginRead c a)
          (\<lambda>t. if fst t = PM_DATA_NO_PURGED then Some (True, fst t, snd t)
               else if fst t \<noteq> PM_DATA_PURGED then Some (False, fst t, snd t)
               else Option.bind (BeginReadBuildData c (snd t))
                      (\<lambda>b. if fst b \<noteq> PMB_BUILD_ALL_SUCC then Some (False, fst b, snd b)
                           else loop c (snd b))) = Some y"
    from body obtain t where T: "TryBeginRead c a = Some t"
      and rest: "(if fst t = PM_DATA_NO_PURGED then Some (True, fst t, snd t)
          else if fst t \<noteq> PM_DATA_PURGED then Some (False, fst t, snd t)
          else Option.bind (BeginReadBuildData c (snd t))
                 (\<lambda>b. if fst b \<noteq> PMB_BUILD_ALL_SUCC then Some (False, fst b, snd b)
                      else loop c (snd b))) = Some y"
      by (auto simp: Option.bind_eq_Some_conv)
    show "?P c a y"
    proof (cases "fst t = PM_DATA_NO_PURGED")
      case True
      with rest show ?thesis
        by auto
    next
      case False
      note keep = TryBeginRead_keeps [OF T False]
      show ?thesis
      proof (cases "fst t = PM_DATA_PURGED")
        case no: False
        with False rest keep have "snd (snd y) = a"
          by auto
        with refl [of a] show ?thesis
          by simp
      next
        case True
        with False rest keep obtain b where b: "BeginReadBuildData c a = Some b"
          and rest2: "(if fst b \<noteq> PMB_BUILD_ALL_SUCC then Some (False, fst b, snd b)
                        else loop c (snd b)) = Some y"
          by (auto simp: Option.bind_eq_Some_conv)
        show ?thesis
        proof (cases "fst b = PMB_BUILD_ALL_SUCC")
          case no: False
          with rest2 have "snd (snd y) = snd b"
            by auto
          with build [OF b] show ?thesis
            by simp
        next
          case True
          with rest2 have "loop c (snd b) = Some y"
            by simp
          from IH [OF this] have "\<not> fst y \<longrightarrow> ?Q (snd b) (snd (snd y))"
            by simp
          with trans [OF build [OF b]] show ?thesis
            by blast
        qed
      qed
    qed
  qed
  then show ?thesis
    by simp
qed

text \<open>
  A pin by \<open>UxpteGet\<close>, present flags set by the kernel, then the unpin by \<open>UxptePut\<close>
  over the same range: the reference counts that the pin could raise are as before.
\<close>

lemma unpin_after_pin:
  assumes G: "UxpteGet cap (Some t) addr len = Some pinned"
    and m: "uxpte t = Some ptes"
    and hi: "dataAddr t + dataSize t \<le> - PAGE_SIZE"
    and mid: "\<forall>t1 p1. pinned = Some t1 \<and> uxpte t1 = Some p1 \<longrightarrow>
               (\<exists>p2. middle = Some (t1\<lparr>uxpte := Some p2\<rparr>) \<and>
                     (\<forall>i. p2 i = p1 i \<or> p2 i = p1 i OR 1))"
    and U: "UxptePut cap middle addr len = Some unpinned"
  shows "\<exists>ptes'. unpinned = Some (t\<lparr>uxpte := Some ptes'\<rparr>) \<and>
           (\<forall>off \<in> set (page_range (RoundDown addr PAGE_SIZE) (RoundUp (addr + len) PAGE_SIZE)).
              \<not> ptes (GetIndexInUxpte (dataAddr t) off) + 2
                  < ptes (GetIndexInUxpte (dataAddr t) off) \<longrightarrow>
              drop_bit 1 (ptes' (GetIndexInUxpte (dataAddr t) off))
                = drop_bit 1 (ptes (GetIndexInUxpte (dataAddr t) off)))"
proof -
  let ?pages = "page_range (RoundDown addr PAGE_SIZE) (RoundUp (addr + len) PAGE_SIZE)"
  let ?out = "RoundDown addr PAGE_SIZE < dataAddr t \<or>
              dataAddr t + dataSize t < RoundUp (addr + len) PAGE_SIZE"
  show ?thesis
  proof (cases "cap \<and> \<not> ?out")
    case True
    then have cap: cap and r: "\<not> ?out"
      by simp_all
    let ?g = "map_descriptors pin_value (dataAddr t) ?pages ptes"
    from G cap have pinned: "pinned = Some (t\<lparr>uxpte := Some ?g\<rparr>)"
      by (simp add: UxpteGet_def UxpteOps_in_range [OF r m hi])
    with mid obtain x where x: "middle = Some (t\<lparr>uxpte := Some x\<rparr>)"
      and gx: "\<forall>i. x i = ?g i \<or> x i = ?g i OR 1"
      by auto
    let ?tx = "t\<lparr>uxpte := Some x\<rparr>"
    let ?f = "map_descriptors (\<lambda>v. v - 2) (dataAddr t) ?pages x"
    have "UxpteOps (Some ?tx) addr len UPT_PUT = Some (PM_OK, Some (?tx\<lparr>uxpte := Some ?f\<rparr>))"
      using UxpteOps_in_range [of addr ?tx len x UPT_PUT] r hi by simp
    with U cap x have unpinned: "unpinned = Some (t\<lparr>uxpte := Some ?f\<rparr>)"
      by (simp add: UxptePut_def)
    from r have "\<not> dataAddr t + dataSize t < RoundUp (addr + len) PAGE_SIZE"
      by simp
    from end_bound [OF this hi]
    have dist: "distinct (map (GetIndexInUxpte (dataAddr t)) ?pages)"
      by (rule distinct_page_range)
    have "drop_bit 1 (?f (GetIndexInUxpte (dataAddr t) off))
            = drop_bit 1 (ptes (GetIndexInUxpte (dataAddr t) off))"
      if off: "off \<in> set ?pages"
        and ov: "\<not> ptes (GetIndexInUxpte (dataAddr t) off) + 2
                     < ptes (GetIndexInUxpte (dataAddr t) off)" for off
    proof -
      let ?i = "GetIndexInUxpte (dataAddr t) off"
      have f: "?f ?i = x ?i - 2"
        by (rule map_descriptors_at [OF dist off])
      have g: "?g ?i = pin_value (ptes ?i)"
        by (rule map_descriptors_at [OF dist off])
      from gx g have "x ?i = pin_value (ptes ?i) \<or> x ?i = pin_value (ptes ?i) OR 1"
        by metis
      from refcount_get_put [OF ov this] f show ?thesis
        by simp
    qed
    with unpinned show ?thesis
      by (intro exI [of _ ?f]) simp
  next
    case False
    have pinned: "pinned = Some t"
    proof (cases cap)
      case True
      with False have ?out
        by simp
      from UxpteOps_out_range [OF this] G True show ?thesis
        by (simp add: UxpteGet_def)
    next
      case no: False
      with G show ?thesis
        by (simp add: UxpteGet_def)
    qed
    with mid m obtain x where x: "middle = Some (t\<lparr>uxpte := Some x\<rparr>)"
      and gx: "\<forall>i. x i = ptes i \<or> x i = ptes i OR 1"
      by auto
    let ?tx = "t\<lparr>uxpte := Some x\<rparr>"
    have unpinned: "unpinned = Some ?tx"
    proof (cases cap)
      case True
      with False have "RoundDown addr PAGE_SIZE < dataAddr ?tx \<or>
              dataAddr ?tx + dataSize ?tx < RoundUp (addr + len) PAGE_SIZE"
        by simp
      from UxpteOps_out_range [OF this] U True x show ?thesis
        by (simp add: UxptePut_def)
    next
      case no: False
      with U x show ?thesis
        by (simp add: UxptePut_def)
    qed
    have "drop_bit 1 (x i) = drop_bit 1 (ptes i)" for i
      using gx [rule_format, of i] by (auto simp: refcount_or_1)
    with unpinned show ?thesis
      by (intro exI [of _ x]) simp
  qed
qed

text \<open>What a \<open>PurgMemBeginRead\<close> or \<open>PurgMemBeginWrite\<close> that returns \<open>false\<close> has done.\<close>

lemma BeginRead_false:
  assumes valid: "IsPurgMemPtrValid (Some p)"
    and fail: "PurgMemBeginRead cap (Some p) = Some (False, q)"
  shows "\<exists>pinned middle unpinned p'.
     UxpteGet cap (uxPageTable p) (dataPtr p) (dataSizeInput p) = Some pinned \<and>
     (\<forall>t1 p1. pinned = Some t1 \<and> uxpte t1 = Some p1 \<longrightarrow>
        (\<exists>p2. middle = Some (t1\<lparr>uxpte := Some p2\<rparr>) \<and>
              (\<forall>i. p2 i = p1 i \<or> p2 i = p1 i OR 1))) \<and>
     UxptePut cap middle (dataPtr p) (dataSizeInput p) = Some unpinned \<and>
     q = Some p' \<and> rwlock p' = rwlock p \<and> uxPageTable p' = unpinned"
proof -
  from valid fail obtain pinned r unpinned where
    G: "UxpteGet cap (uxPageTable p) (dataPtr p) (dataSizeInput p) = Some pinned"
    and L: "PurgMemBeginRead_loop cap (p\<lparr>uxPageTable := pinned\<rparr>) = Some r"
    and nf: "\<not> fst r"
    and U: "UxptePut cap (uxPageTable (snd (snd r))) (dataPtr (snd (snd r)))
              (dataSizeInput (snd (snd r))) = Some unpinned"
    and q: "q = Some ((snd (snd r))\<lparr>uxPageTable := unpinned\<rparr>)"
    by (auto simp: PurgMemBeginRead_def Option.bind_eq_Some_conv split: if_splits)
  from BeginRead_loop_false [OF L] nf
  have I: "rwlock (snd (snd r)) = rwlock p" "dataPtr (snd (snd r)) = dataPtr p"
    "dataSizeInput (snd (snd r)) = dataSizeInput p"
    "\<forall>t1 p1. pinned = Some t1 \<and> uxpte t1 = Some p1 \<longrightarrow>
        (\<exists>p2. uxPageTable (snd (snd r)) = Some (t1\<lparr>uxpte := Some p2\<rparr>) \<and>
              (\<forall>i. p2 i = p1 i \<or> p2 i = p1 i OR 1))"
    by simp_all
  from U I(2,3) have U': "UxptePut cap (uxPageTable (snd (snd r))) (dataPtr p)
                            (dataSizeInput p) = Some unpinned"
    by simp
  from G I(4) U' q I(1) show ?thesis
    by (intro exI [of _ pinned] exI [of _ "uxPageTable (snd (snd r))"] exI [of _ unpinned]
          exI [of _ "(snd (snd r))\<lparr>uxPageTable := unpinned\<rparr>"]) simp
qed

lemma populated_cases:
  assumes "middle = pinned \<or> middle = kernel_populate cap pinned addr len"
  shows "\<forall>t1 p1. pinned = Some t1 \<and> uxpte t1 = Some p1 \<longrightarrow>
        (\<exists>p2. middle = Some (t1\<lparr>uxpte := Some p2\<rparr>) \<and>
              (\<forall>i. p2 i = p1 i \<or> p2 i = p1 i OR 1))"
proof (intro allI impI)
  fix t1 p1
  assume a: "pinned = Some t1 \<and> uxpte t1 = Some p1"
  from assms show "\<exists>p2. middle = Some (t1\<lparr>uxpte := Some p2\<rparr>) \<and>
              (\<forall>i. p2 i = p1 i \<or> p2 i = p1 i OR 1)"
  proof
    assume "middle = pinned"
    moreover from a have "t1\<lparr>uxpte := Some p1\<rparr> = t1"
      by simp
    ultimately show ?thesis
      using a by (intro exI [of _ p1]) simp
  next
    assume "middle = kernel_populate cap pinned addr len"
    with kernel_populate_sets_present [of t1 p1 cap addr len] a show ?thesis
      by simp
  qed
qed

lemma BeginWrite_false:
  assumes valid: "IsPurgMemPtrValid (Some p)"
    and fail: "PurgMemBeginWrite cap (Some p) = Some (False, q)"
  shows "\<exists>pinned middle unpinned p'.
     UxpteGet cap (uxPageTable p) (dataPtr p) (dataSizeInput p) = Some pinned \<and>
     (\<forall>t1 p1. pinned = Some t1 \<and> uxpte t1 = Some p1 \<longrightarrow>
        (\<exists>p2. middle = Some (t1\<lparr>uxpte := Some p2\<rparr>) \<and>
              (\<forall>i. p2 i = p1 i \<or> p2 i = p1 i OR 1))) \<and>
     UxptePut cap middle (dataPtr p) (dataSizeInput p) = Some unpinned \<and>
     q = Some p' \<and> rwlock p' = rwlock p \<and> uxPageTable p' = unpinned"
proof -
  from valid fail obtain pinned where
    G: "UxpteGet cap (uxPageTable p) (dataPtr p) (dataSizeInput p) = Some pinned"
    by (auto simp: PurgMemBeginWrite_def Option.bind_eq_Some_conv split: if_splits)
  let ?p1 = "p\<lparr>uxPageTable := pinned\<rparr>"
  show ?thesis
  proof (cases "writer (rwlock p) \<or> 0 < readers (rwlock p)")
    case True
    with valid fail G obtain unpinned where
      U: "UxptePut cap pinned (dataPtr p) (dataSizeInput p) = Some unpinned"
      and q: "q = Some (?p1\<lparr>uxPageTable := unpinned\<rparr>)"
      by (auto simp: PurgMemBeginWrite_def Let_def pthread_rwlock_wrlock_def EDEADLK_def
            Option.bind_eq_Some_conv)
    from populated_cases [of pinned pinned cap "dataPtr p" "dataSizeInput p"]
    have "\<forall>t1 p1. pinned = Some t1 \<and> uxpte t1 = Some p1 \<longrightarrow>
        (\<exists>p2. pinned = Some (t1\<lparr>uxpte := Some p2\<rparr>) \<and>
              (\<forall>i. p2 i = p1 i \<or> p2 i = p1 i OR 1))"
      by simp
    with G U q show ?thesis
      by (intro exI [of _ pinned] exI [of _ unpinned]
            exI [of _ "?p1\<lparr>uxPageTable := unpinned\<rparr>"]) simp
  next
    case False
    then have restore: "(rwlock p)\<lparr>writer := False\<rparr> = rwlock p"
      by simp
    let ?locked = "?p1\<lparr>rwlock := (rwlock p)\<lparr>writer := True\<rparr>\<rparr>"
    let ?b = "PurgMemBuildData cap ?locked"
    let ?p2 = "(snd ?b)\<lparr>rwlock := (rwlock p)\<lparr>writer := False\<rparr>\<rparr>"
    from valid fail G False obtain unpinned where
      U: "UxptePut cap (uxPageTable (snd ?b)) (dataPtr p) (dataSizeInput p) = Some unpinned"
      and q: "q = Some (?p2\<lparr>uxPageTable := unpinned\<rparr>)"
      by (auto simp: PurgMemBeginWrite_def Let_def pthread_rwlock_wrlock_def
            pthread_rwlock_unlock_def Option.bind_eq_Some_conv split: if_splits)
    from BuildData_table_cases [of cap ?locked]
    have "uxPageTable (snd ?b) = pinned \<or>
          uxPageTable (snd ?b) = kernel_populate cap pinned (dataPtr p) (dataSizeInput p)"
      by simp
    from populated_cases [OF this] G U q restore show ?thesis
      by (intro exI [of _ pinned] exI [of _ "uxPageTable (snd ?b)"] exI [of _ unpinned]
            exI [of _ "?p2\<lparr>uxPageTable := unpinned\<rparr>"]) simp
  qed
qed

text \<open>The one-page table of the examples, with any descriptors.\<close>

lemma ex_table_page:
  "page_range (RoundDown 0x10000 PAGE_SIZE) (RoundUp (0x10000 + 1) PAGE_SIZE) = [0x10000]"
  "GetIndexInUxpte 0x10000 0x10000 = 16"
  "page_range (RoundDown 0x10000 PAGE_SIZE) (RoundUp 0x10001 PAGE_SIZE) = [0x10000]"
  by (simp_all add: page_range_def npages_def RoundUp_def RoundDown_def PAGE_SIZE_4096
        GetIndexInUxpte_def UxpteOffset_def VirtPageNo_def UxptePageNo_def PAGE_SHIFT_def
        UXPTE_PER_PAGE_def UXPTE_PER_PAGE_SHIFT_def UXPTE_SIZE_SHIFT_def)

lemma ex_table_ops:
  "UxpteGet True (Some (ex_table\<lparr>uxpte := Some D\<rparr>)) 0x10000 1
     = Some (Some (ex_table\<lparr>uxpte := Some (D(16 := pin_value (D 16)))\<rparr>))"
  "UxptePut True (Some (ex_table\<lparr>uxpte := Some D\<rparr>)) 0x10000 1
     = Some (Some (ex_table\<lparr>uxpte := Some (D(16 := D 16 - 2))\<rparr>))"
  "kernel_populate True (Some (ex_table\<lparr>uxpte := Some D\<rparr>)) 0x10000 1
     = Some (ex_table\<lparr>uxpte := Some (D(16 := D 16 OR 1))\<rparr>)"
proof -
  let ?t = "ex_table\<lparr>uxpte := Some D\<rparr>"
  have r: "\<not> (RoundDown 0x10000 PAGE_SIZE < dataAddr ?t \<or>
              dataAddr ?t + dataSize ?t < RoundUp (0x10000 + 1) PAGE_SIZE)"
    and hi: "dataAddr ?t + dataSize ?t \<le> - PAGE_SIZE"
    by (simp_all add: ex_table_def RoundUp_def RoundDown_def PAGE_SIZE_4096)
  have m: "uxpte ?t = Some D" and d: "dataAddr ?t = 0x10000"
    and d0: "dataAddr ex_table = 0x10000"
    by (simp_all add: ex_table_def)
  note O = UxpteOps_in_range [OF r m hi]
  show "UxpteGet True (Some ?t) 0x10000 1
     = Some (Some (ex_table\<lparr>uxpte := Some (D(16 := pin_value (D 16)))\<rparr>))"
    unfolding UxpteGet_def O d ex_table_page map_descriptors_def
    by (simp add: ex_table_page)
  show "UxptePut True (Some ?t) 0x10000 1
     = Some (Some (ex_table\<lparr>uxpte := Some (D(16 := D 16 - 2))\<rparr>))"
    unfolding UxptePut_def O d ex_table_page map_descriptors_def
    by (simp add: ex_table_page)
  show "kernel_populate True (Some ?t) 0x10000 1
     = Some (ex_table\<lparr>uxpte := Some (D(16 := D 16 OR 1))\<rparr>)"
    unfolding kernel_populate_def d ex_table_page map_descriptors_def
    by (simp add: ex_table_page m d0)
qed

text \<open>
  The first \<open>PurgMemBeginWrite\<close> and \<open>PurgMemBeginRead\<close> on the one-byte region
  whose only modify function fails, with the capability.
\<close>

lemma ex_failing_begin:
  fixes D :: "64 word \<Rightarrow> uxpte_t"
  defines "p \<equiv> ex_failing\<lparr>uxPageTable := Some (ex_table\<lparr>uxpte := Some D\<rparr>)\<rparr>"
  defines "q \<equiv> p\<lparr>mem := (\<lambda>i. if i = 0 then 0 else 0xFF),
                   uxPageTable := Some (ex_table\<lparr>uxpte :=
                     Some (D(16 := (pin_value (D 16) OR 1) - 2))\<rparr>)\<rparr>"
  shows "IsPurgMemPtrValid (Some p)"
    and "PurgMemBeginWrite True (Some p) = Some (False, Some q)"
    and "PurgMemBeginRead True (Some p) = Some (False, Some q)"
proof -
  let ?D1 = "D(16 := pin_value (D 16))"
  let ?D2 = "D(16 := pin_value (D 16) OR 1)"
  let ?D3 = "D(16 := (pin_value (D 16) OR 1) - 2)"
  let ?p1 = "p\<lparr>uxPageTable := Some (ex_table\<lparr>uxpte := Some ?D1\<rparr>)\<rparr>"
  let ?m = "\<lambda>i :: nat. if i = 0 then 0 else (0xFF :: 8 word)"
  let ?b = "p\<lparr>mem := ?m, uxPageTable := Some (ex_table\<lparr>uxpte := Some ?D2\<rparr>)\<rparr>"
  have f: "dataPtr p = 0x10000" "dataSizeInput p = 1" "builder p = [(fail_func, 0)]"
    "uxPageTable p = Some (ex_table\<lparr>uxpte := Some D\<rparr>)" "rwlock p = rwlock_free"
    "buildDataCount p = 0" "mem p = (\<lambda>i. 0xFF)"
    by (simp_all add: p_def ex_failing_def ex_region_def)
  show v: "IsPurgMemPtrValid (Some p)"
    by (simp add: IsPurgMemPtrValid_def f)
  have ms: "memset_s 0x10000 (\<lambda>i. 0xFF) (RoundUp 1 PAGE_SIZE) 0 1 = (EOK, ?m)"
    by (simp add: memset_s_def RoundUp_def PAGE_SIZE_4096 SECUREC_MEM_MAX_LEN_def EOK_def)
  have cf: "call_func fail_func ?m 1 0 = (False, ?m)"
    by (simp add: call_func_def fail_func_def) (rule ext, simp)
  have build: "PurgMemBuildData True ?p1 = (False, ?b)"
    by (simp add: PurgMemBuildData_def Let_def f ms ex_table_ops cf)
  have put: "UxptePut True (Some (ex_table\<lparr>uxpte := Some ?D2\<rparr>)) 0x10000 1
               = Some (Some (ex_table\<lparr>uxpte := Some ?D3\<rparr>))"
    by (simp add: ex_table_ops)
  have qb: "?b\<lparr>uxPageTable := Some (ex_table\<lparr>uxpte := Some ?D3\<rparr>)\<rparr> = q"
    by (simp add: q_def)
  show "PurgMemBeginWrite True (Some p) = Some (False, Some q)"
    using v
    by (simp add: PurgMemBeginWrite_def f ex_table_ops Let_def pthread_rwlock_wrlock_def
          pthread_rwlock_unlock_def rwlock_free_def IsPurged_def
          BuildData_rwlock build put qb [symmetric])
  have loop: "PurgMemBeginRead_loop True ?p1 = Some (False, PMB_BUILD_ALL_FAIL, ?b)"
    using BeginRead_loop_first_fails [of ?p1 True] by (simp add: f build)
  show "PurgMemBeginRead True (Some p) = Some (False, Some q)"
    using v by (simp add: PurgMemBeginRead_def f ex_table_ops loop put qb [symmetric])
qed

section \<open>The claims\<close>

text \<open>
  Claim C1. The claim: while a covered descriptor holds the under-reclaim value
  \<open>-2\<close>, \<open>get\<close> yields and retries and only an add that would overflow skips the
  page. In the code the overflow test comes first and \<open>-2 + 2\<close> overflows: whatever
  the kernel does next, \<open>UxpteAdd\<close> leaves the loop at once, makes no call of
  \<open>sched_yield\<close> and stores nothing.
\<close>

theorem UxpteAdd_under_reclaim_skips:
  "UxpteAdd \<lparr>cell_val = UXPTE_UNDER_RECLAIM, cell_sched = ks\<rparr> UXPTE_REFCNT_ONE
     = (\<lparr>cell_val = UXPTE_UNDER_RECLAIM, cell_sched = ks\<rparr>, 0)"
  by (simp add: UxpteAdd.simps UxpteLoad_def UXPTE_UNDER_RECLAIM_def UXPTE_REFCNT_ONE_2)

text \<open>
  Claim C9, as amended. \<open>UxpteSub\<close> always returns, and what it stores is the value
  it loaded last (the initial one or one the kernel wrote) minus the refcount unit 2,
  modulo \<open>2^64\<close>, with no guard: with a quiet kernel a descriptor 0 becomes
  \<open>2^64 - 2\<close>, the under-reclaim value. The present bit of the stored value is the
  present bit of the loaded one: \<open>put\<close> never changes it.
\<close>

theorem UxpteSub_wraps_keeps_present:
  "(\<exists>old. (old = cell_val pte \<or> Some old \<in> set (cell_sched pte)) \<and>
          cell_val (UxpteSub pte UXPTE_REFCNT_ONE) = old - 2 \<and>
          IsUxptePresent (cell_val (UxpteSub pte UXPTE_REFCNT_ONE)) = IsUxptePresent old) \<and>
   UxpteSub (quiet_cell v) UXPTE_REFCNT_ONE = quiet_cell (v - 2) \<and>
   cell_val (UxpteSub (quiet_cell 0) UXPTE_REFCNT_ONE) = UXPTE_UNDER_RECLAIM \<and>
   unat UXPTE_UNDER_RECLAIM = 2 ^ 64 - 2 \<and>
   (uxpte tab = Some ptes \<longrightarrow>
      PutUxpteAt tab addr
        = Some (tab\<lparr>uxpte := Some (ptes(GetIndexInUxpte (dataAddr tab) addr :=
                   ptes (GetIndexInUxpte (dataAddr tab) addr) - 2))\<rparr>))"
proof -
  from UxpteSub_result [of pte UXPTE_REFCNT_ONE] obtain old where
    o: "cell_val (UxpteSub pte UXPTE_REFCNT_ONE) = old - UXPTE_REFCNT_ONE"
       "old = cell_val pte \<or> Some old \<in> set (cell_sched pte)"
    by auto
  from o(1) have "IsUxptePresent (cell_val (UxpteSub pte UXPTE_REFCNT_ONE)) = IsUxptePresent old"
    by (simp add: present_sub)
  with o have 1: "\<exists>old. (old = cell_val pte \<or> Some old \<in> set (cell_sched pte)) \<and>
          cell_val (UxpteSub pte UXPTE_REFCNT_ONE) = old - 2 \<and>
          IsUxptePresent (cell_val (UxpteSub pte UXPTE_REFCNT_ONE)) = IsUxptePresent old"
    by (auto simp: UXPTE_REFCNT_ONE_2)
  have 2: "UxpteSub (quiet_cell v) UXPTE_REFCNT_ONE = quiet_cell (v - 2)"
    by (simp add: UxpteSub_quiet UXPTE_REFCNT_ONE_2)
  have 3: "cell_val (UxpteSub (quiet_cell 0) UXPTE_REFCNT_ONE) = UXPTE_UNDER_RECLAIM"
    by (simp add: UxpteSub_quiet UXPTE_REFCNT_ONE_2 UXPTE_UNDER_RECLAIM_def)
  have 4: "unat UXPTE_UNDER_RECLAIM = 2 ^ 64 - 2"
    by (simp add: UXPTE_UNDER_RECLAIM_def UXPTE_REFCNT_ONE_2)
  have 5: "uxpte tab = Some ptes \<longrightarrow>
      PutUxpteAt tab addr
        = Some (tab\<lparr>uxpte := Some (ptes(GetIndexInUxpte (dataAddr tab) addr :=
                   ptes (GetIndexInUxpte (dataAddr tab) addr) - 2))\<rparr>)"
    by (simp add: PutUxpteAt_Some)
  from 1 2 3 4 5 show ?thesis by blast
qed

theorem UxpteSub_wraps_keeps_present_witness:
  "uxpte ex_table = Some (\<lambda>i. 0) \<and>
   PutUxpteAt ex_table 0x10000
     = Some (ex_table\<lparr>uxpte := Some ((\<lambda>i. 0)(0x10 := UXPTE_UNDER_RECLAIM))\<rparr>) \<and>
   \<not> IsUxptePresent UXPTE_UNDER_RECLAIM"
proof -
  have h: "uxpte ex_table = Some (\<lambda>i. 0)"
    by (simp add: ex_table_def)
  have i: "GetIndexInUxpte (dataAddr ex_table) 0x10000 = 0x10"
    by (simp add: ex_table_def GetIndexInUxpte_def UxpteOffset_def VirtPageNo_def
          UXPTE_PER_PAGE_def UXPTE_PER_PAGE_SHIFT_def PAGE_SHIFT_def UXPTE_SIZE_SHIFT_def
          drop_bit_eq_div)
  from UxpteSub_wraps_keeps_present [of _ _ ex_table "\<lambda>i. 0" "0x10000"] h i show ?thesis
    by (simp add: UXPTE_UNDER_RECLAIM_def UXPTE_REFCNT_ONE_2 IsUxptePresent_odd)
qed

text \<open>
  Claim C9 as stated says that a \<open>put\<close> can flip the present bit. No descriptor
  value has its present bit changed by \<open>UxpteSub\<close> with the refcount unit.
\<close>

theorem put_flips_present_counterexample:
  "\<not> (\<exists>v. IsUxptePresent (cell_val (UxpteSub (quiet_cell v) UXPTE_REFCNT_ONE))
             \<noteq> IsUxptePresent v)"
  by (simp add: UxpteSub_quiet present_sub)

text \<open>
  Claim C2, as amended. A rebuild (\<open>PurgMemBuildData\<close>, called by both
  \<open>PurgMemBeginRead\<close> and \<open>PurgMemBeginWrite\<close>) first zeroes the first
  \<open>dataSizeInput\<close> bytes of the mapping, then invokes the builder chain on them.
  After a successful rebuild these bytes equal the chain applied to an all-zero
  buffer of \<open>dataSizeInput\<close> bytes, the bytes from \<open>dataSizeInput\<close> on are as they
  were, and \<open>buildDataCount\<close> is one more (modulo \<open>2^32\<close>); a failed rebuild leaves
  \<open>buildDataCount\<close> unchanged.
\<close>

theorem PurgMemBuildData_zeroes_input_size:
  "(fst (PurgMemBuildData cap p) \<longrightarrow>
      fst (PurgMemBuilderBuildAll (builder p) (\<lambda>i. 0) (dataSizeInput p)) \<and>
      (\<forall>i<unat (dataSizeInput p).
         mem (snd (PurgMemBuildData cap p)) i
           = snd (PurgMemBuilderBuildAll (builder p) (\<lambda>i. 0) (dataSizeInput p)) i) \<and>
      (\<forall>i\<ge>unat (dataSizeInput p). mem (snd (PurgMemBuildData cap p)) i = mem p i) \<and>
      buildDataCount (snd (PurgMemBuildData cap p)) = buildDataCount p + 1) \<and>
   (\<not> fst (PurgMemBuildData cap p) \<longrightarrow>
      buildDataCount (snd (PurgMemBuildData cap p)) = buildDataCount p)"
proof -
  let ?n = "dataSizeInput p"
  let ?z = "\<lambda>i. if i < unat ?n then 0 else mem p i"
  have c: "\<forall>i<unat ?n. ?z i = (\<lambda>i. 0::8 word) i" by simp
  note B = BuildAll_cong [OF c, of "builder p"]
  have le: "?n \<le> RoundUp ?n PAGE_SIZE" by (rule RoundUp_ge)
  show ?thesis
  proof (cases "fst (memset_s (dataPtr p) (mem p) (RoundUp ?n PAGE_SIZE) 0 ?n) = EOK")
    case False
    then show ?thesis
      by (simp add: PurgMemBuildData_def Let_def)
  next
    case True
    with le have m: "snd (memset_s (dataPtr p) (mem p) (RoundUp ?n PAGE_SIZE) 0 ?n) = ?z"
      by (auto simp: memset_s_def EOK_def ERANGE_def EINVAL_def ERANGE_AND_RESET_def
               split: if_splits)
    from True m B show ?thesis
      by (simp add: PurgMemBuildData_def Let_def BuildAll_tail)
  qed
qed

theorem PurgMemBuildData_zeroes_input_size_witness:
  "fst (PurgMemBuildData False ex_region) \<and>
   unat (dataSizeInput ex_region) = 1 \<and>
   mem (snd (PurgMemBuildData False ex_region)) 0 = 0x5A \<and>
   buildDataCount (snd (PurgMemBuildData False ex_region)) = 1 \<and>
   \<not> fst (PurgMemBuildData False (ex_region\<lparr>builder := [(fail_func, 0)]\<rparr>)) \<and>
   buildDataCount (snd (PurgMemBuildData False (ex_region\<lparr>builder := [(fail_func, 0)]\<rparr>))) = 0"
proof -
  have h: "fst (PurgMemBuildData False ex_region)"
    by (simp add: PurgMemBuildData_def ex_region_def memset_s_def RoundUp_def PAGE_SIZE_4096
          Let_def EOK_def SECUREC_MEM_MAX_LEN_def kernel_populate_def call_func_def fill_func_def)
  have g: "\<not> fst (PurgMemBuildData False (ex_region\<lparr>builder := [(fail_func, 0)]\<rparr>))"
    by (simp add: PurgMemBuildData_def ex_region_def memset_s_def RoundUp_def PAGE_SIZE_4096
          Let_def EOK_def SECUREC_MEM_MAX_LEN_def kernel_populate_def call_func_def fail_func_def)
  have b: "snd (PurgMemBuilderBuildAll (builder ex_region) (\<lambda>i. 0) (dataSizeInput ex_region)) 0
           = 0x5A"
    by (simp add: ex_region_def call_func_def fill_func_def Let_def)
  have n: "unat (dataSizeInput ex_region) = 1" "buildDataCount ex_region = 0"
    by (simp_all add: ex_region_def)
  from PurgMemBuildData_zeroes_input_size [of False ex_region]
       PurgMemBuildData_zeroes_input_size [of False "ex_region\<lparr>builder := [(fail_func, 0)]\<rparr>"]
       h g b n
  show ?thesis
    by simp
qed

text \<open>
  Claim C2 as stated says that the whole mapped range of
  \<open>RoundUp (dataSizeInput, PAGE_SIZE)\<close> bytes is zeroed. \<open>memset_s\<close> is given that
  length as the capacity of the buffer and \<open>dataSizeInput\<close> as the count: in a
  one-byte region the byte at offset 1 of the 4096 mapped bytes keeps its value
  \<open>0xFF\<close> across a successful rebuild.
\<close>

theorem rebuild_zeroes_mapped_range_counterexample:
  "fst (PurgMemBuildData False ex_region) \<and>
   (1::nat) < unat (RoundUp (dataSizeInput ex_region) PAGE_SIZE) \<and>
   mem ex_region 1 = 0xFF \<and>
   mem (snd (PurgMemBuildData False ex_region)) 1 = 0xFF"
  by (simp add: PurgMemBuildData_def ex_region_def memset_s_def RoundUp_def PAGE_SIZE_4096
        Let_def EOK_def SECUREC_MEM_MAX_LEN_def kernel_populate_def call_func_def fill_func_def)

text \<open>
  Claim C8. \<open>PurgMemAppendModify\<close> applies the function to the buffer before it
  creates and links the node. When the function succeeds and the node cannot be
  created, the call returns \<open>false\<close>; and whenever the function succeeded and the call
  returns \<open>false\<close>, the region is the old one with the buffer as the function left
  it: the modification is not rolled back and the chain is unchanged.
\<close>

theorem PurgMemAppendModify_false_keeps_modification:
  "(fst (call_func f (mem p) (dataSizeInput p) para) \<and> \<not> builder_alloc_ok env \<longrightarrow>
      \<not> fst (PurgMemAppendModify env (Some p) (Some f) para)) \<and>
   (fst (call_func f (mem p) (dataSizeInput p) para) \<and>
    \<not> fst (PurgMemAppendModify env (Some p) (Some f) para) \<longrightarrow>
      snd (PurgMemAppendModify env (Some p) (Some f) para)
        = Some (p\<lparr>mem := snd (call_func f (mem p) (dataSizeInput p) para)\<rparr>) \<and>
      builder (the (snd (PurgMemAppendModify env (Some p) (Some f) para))) = builder p)"
  by (auto simp: PurgMemAppendModify_def Let_def PurgMemBuilderAppendBuilder_def
        PurgMemBuilderCreate_def split: if_splits)

theorem PurgMemAppendModify_false_keeps_modification_witness:
  "fst (call_func fill_func (mem ex_region) (dataSizeInput ex_region) 0x5A) \<and>
   \<not> builder_alloc_ok ex_env_failing \<and>
   \<not> fst (PurgMemAppendModify ex_env_failing (Some ex_region) (Some fill_func) 0x5A) \<and>
   mem ex_region 0 = 0xFF \<and>
   mem (the (snd (PurgMemAppendModify ex_env_failing (Some ex_region) (Some fill_func) 0x5A))) 0
     = 0x5A \<and>
   builder (the (snd (PurgMemAppendModify ex_env_failing (Some ex_region) (Some fill_func) 0x5A)))
     = builder ex_region"
proof -
  have h: "fst (call_func fill_func (mem ex_region) (dataSizeInput ex_region) 0x5A)"
    by (simp add: call_func_def fill_func_def)
  have e: "\<not> builder_alloc_ok ex_env_failing"
    by (simp add: ex_env_failing_def)
  have v: "snd (call_func fill_func (mem ex_region) (dataSizeInput ex_region) 0x5A) 0 = 0x5A"
    "mem ex_region 0 = 0xFF"
    by (simp_all add: call_func_def fill_func_def ex_region_def)
  from PurgMemAppendModify_false_keeps_modification
         [of fill_func ex_region "0x5A" ex_env_failing] h e v
  show ?thesis
    by simp
qed


text \<open>
  Claim C10, as amended. \<open>PurgMemDestroy (NULL)\<close> returns \<open>true\<close>. On a region
  (whose presence query for the log returns), the call returns \<open>true\<close> and frees the
  structure exactly when no step fails: the destruction of the builder chain, the
  unmapping of the data and the tear-down of the table. Otherwise it returns
  \<open>false\<close>, does not free the structure, and leaves \<open>NULL\<close> in the field of every
  step that succeeded, so that a repeated call, whatever the system answers then,
  neither destroys the chain, nor unmaps the data, nor tears down or frees the table
  again. The lock is embedded in the structure and has no pointer field:
  \<open>pthread_rwlock_destroy\<close> is called by every call, a repeated one too.
\<close>

theorem PurgMemDestroy_partial_failure:
  "PurgMemDestroy cap env (None :: 'p PurgMem option) = Some (True, None, []) \<and>
   (IsPurged cap (p :: 'p PurgMem) \<noteq> None \<longrightarrow>
     (\<exists>ok obj calls. PurgMemDestroy cap env (Some p) = Some (ok, obj, calls) \<and>
        Call_pthread_rwlock_destroy \<in> set calls \<and>
        ok = (\<not> (builder p \<noteq> [] \<and> \<not> builder_destroy_ok env) \<and>
              \<not> (dataPtr p \<noteq> 0 \<and> munmap_data_ret env \<noteq> 0) \<and>
              \<not> (uxPageTable p \<noteq> None \<and>
                 fst (DeinitUxPageTable cap env (uxPageTable p)) \<noteq> PM_OK)) \<and>
        (ok \<longrightarrow> obj = None \<and> Call_free_purgObj \<in> set calls) \<and>
        (\<not> ok \<longrightarrow> Call_free_purgObj \<notin> set calls \<and>
           (\<exists>p'. obj = Some p' \<and>
              builder p' = (if builder_destroy_ok env then [] else builder p) \<and>
              dataPtr p' = (if munmap_data_ret env = 0 then 0 else dataPtr p) \<and>
              uxPageTable p' =
                (if fst (DeinitUxPageTable cap env (uxPageTable p)) = PM_OK then None
                 else uxPageTable p) \<and>
              (\<forall>env' r. PurgMemDestroy cap env' (Some p') = Some r \<longrightarrow>
                 Call_pthread_rwlock_destroy \<in> set (snd (snd r)) \<and>
                 (builder_destroy_ok env \<longrightarrow>
                    Call_PurgMemBuilderDestroy \<notin> set (snd (snd r))) \<and>
                 (munmap_data_ret env = 0 \<longrightarrow>
                    Call_munmap_dataPtr \<notin> set (snd (snd r))) \<and>
                 (fst (DeinitUxPageTable cap env (uxPageTable p)) = PM_OK \<longrightarrow>
                    Call_DeinitUxPageTable \<notin> set (snd (snd r)) \<and>
                    Call_free_uxPageTable \<notin> set (snd (snd r))))))))"
proof -
  have null: "PurgMemDestroy cap env (None :: 'p PurgMem option) = Some (True, None, [])"
    by (simp add: PurgMemDestroy_def)
  have live: "\<exists>ok obj calls. PurgMemDestroy cap env (Some p) = Some (ok, obj, calls) \<and>
        Call_pthread_rwlock_destroy \<in> set calls \<and>
        ok = (\<not> (builder p \<noteq> [] \<and> \<not> builder_destroy_ok env) \<and>
              \<not> (dataPtr p \<noteq> 0 \<and> munmap_data_ret env \<noteq> 0) \<and>
              \<not> (uxPageTable p \<noteq> None \<and>
                 fst (DeinitUxPageTable cap env (uxPageTable p)) \<noteq> PM_OK)) \<and>
        (ok \<longrightarrow> obj = None \<and> Call_free_purgObj \<in> set calls) \<and>
        (\<not> ok \<longrightarrow> Call_free_purgObj \<notin> set calls \<and>
           (\<exists>p'. obj = Some p' \<and>
              builder p' = (if builder_destroy_ok env then [] else builder p) \<and>
              dataPtr p' = (if munmap_data_ret env = 0 then 0 else dataPtr p) \<and>
              uxPageTable p' =
                (if fst (DeinitUxPageTable cap env (uxPageTable p)) = PM_OK then None
                 else uxPageTable p) \<and>
              (\<forall>env' r. PurgMemDestroy cap env' (Some p') = Some r \<longrightarrow>
                 Call_pthread_rwlock_destroy \<in> set (snd (snd r)) \<and>
                 (builder_destroy_ok env \<longrightarrow>
                    Call_PurgMemBuilderDestroy \<notin> set (snd (snd r))) \<and>
                 (munmap_data_ret env = 0 \<longrightarrow>
                    Call_munmap_dataPtr \<notin> set (snd (snd r))) \<and>
                 (fst (DeinitUxPageTable cap env (uxPageTable p)) = PM_OK \<longrightarrow>
                    Call_DeinitUxPageTable \<notin> set (snd (snd r)) \<and>
                    Call_free_uxPageTable \<notin> set (snd (snd r))))))"
    if ret: "IsPurged cap p \<noteq> None"
  proof -
    from Destroy_first [OF ret, of env] obtain ok obj calls where
      d: "PurgMemDestroy cap env (Some p) = Some (ok, obj, calls)"
      and okv: "ok = (\<not> (builder p \<noteq> [] \<and> \<not> builder_destroy_ok env) \<and>
              \<not> (dataPtr p \<noteq> 0 \<and> munmap_data_ret env \<noteq> 0) \<and>
              \<not> (uxPageTable p \<noteq> None \<and>
                 fst (DeinitUxPageTable cap env (uxPageTable p)) \<noteq> PM_OK))"
      and good: "ok \<longrightarrow> obj = None \<and> Call_free_purgObj \<in> set calls"
      and bad: "\<not> ok \<longrightarrow> Call_free_purgObj \<notin> set calls \<and>
        (\<exists>p'. obj = Some p' \<and>
           builder p' = (if builder_destroy_ok env then [] else builder p) \<and>
           dataPtr p' = (if munmap_data_ret env = 0 then 0 else dataPtr p) \<and>
           uxPageTable p' =
             (if fst (DeinitUxPageTable cap env (uxPageTable p)) = PM_OK then None
              else uxPageTable p))"
      by blast
    have again: "\<not> ok \<longrightarrow> Call_free_purgObj \<notin> set calls \<and>
           (\<exists>p'. obj = Some p' \<and>
              builder p' = (if builder_destroy_ok env then [] else builder p) \<and>
              dataPtr p' = (if munmap_data_ret env = 0 then 0 else dataPtr p) \<and>
              uxPageTable p' =
                (if fst (DeinitUxPageTable cap env (uxPageTable p)) = PM_OK then None
                 else uxPageTable p) \<and>
              (\<forall>env' r. PurgMemDestroy cap env' (Some p') = Some r \<longrightarrow>
                 Call_pthread_rwlock_destroy \<in> set (snd (snd r)) \<and>
                 (builder_destroy_ok env \<longrightarrow>
                    Call_PurgMemBuilderDestroy \<notin> set (snd (snd r))) \<and>
                 (munmap_data_ret env = 0 \<longrightarrow>
                    Call_munmap_dataPtr \<notin> set (snd (snd r))) \<and>
                 (fst (DeinitUxPageTable cap env (uxPageTable p)) = PM_OK \<longrightarrow>
                    Call_DeinitUxPageTable \<notin> set (snd (snd r)) \<and>
                    Call_free_uxPageTable \<notin> set (snd (snd r)))))"
    proof
      assume "\<not> ok"
      with bad obtain p' where
        p': "obj = Some p'"
            "builder p' = (if builder_destroy_ok env then [] else builder p)"
            "dataPtr p' = (if munmap_data_ret env = 0 then 0 else dataPtr p)"
            "uxPageTable p' =
               (if fst (DeinitUxPageTable cap env (uxPageTable p)) = PM_OK then None
                else uxPageTable p)"
        and nf: "Call_free_purgObj \<notin> set calls"
        by blast
      have "\<forall>env' r. PurgMemDestroy cap env' (Some p') = Some r \<longrightarrow>
                 Call_pthread_rwlock_destroy \<in> set (snd (snd r)) \<and>
                 (builder_destroy_ok env \<longrightarrow>
                    Call_PurgMemBuilderDestroy \<notin> set (snd (snd r))) \<and>
                 (munmap_data_ret env = 0 \<longrightarrow>
                    Call_munmap_dataPtr \<notin> set (snd (snd r))) \<and>
                 (fst (DeinitUxPageTable cap env (uxPageTable p)) = PM_OK \<longrightarrow>
                    Call_DeinitUxPageTable \<notin> set (snd (snd r)) \<and>
                    Call_free_uxPageTable \<notin> set (snd (snd r)))"
        using p'(2-4) Destroy_skips_builder [of p' cap] Destroy_skips_data [of p' cap]
          Destroy_skips_uxpt [of p' cap] Destroy_calls_rwlock [of cap _ p']
        by (metis (full_types))
      with p' nf show "Call_free_purgObj \<notin> set calls \<and>
           (\<exists>p'. obj = Some p' \<and>
              builder p' = (if builder_destroy_ok env then [] else builder p) \<and>
              dataPtr p' = (if munmap_data_ret env = 0 then 0 else dataPtr p) \<and>
              uxPageTable p' =
                (if fst (DeinitUxPageTable cap env (uxPageTable p)) = PM_OK then None
                 else uxPageTable p) \<and>
              (\<forall>env' r. PurgMemDestroy cap env' (Some p') = Some r \<longrightarrow>
                 Call_pthread_rwlock_destroy \<in> set (snd (snd r)) \<and>
                 (builder_destroy_ok env \<longrightarrow>
                    Call_PurgMemBuilderDestroy \<notin> set (snd (snd r))) \<and>
                 (munmap_data_ret env = 0 \<longrightarrow>
                    Call_munmap_dataPtr \<notin> set (snd (snd r))) \<and>
                 (fst (DeinitUxPageTable cap env (uxPageTable p)) = PM_OK \<longrightarrow>
                    Call_DeinitUxPageTable \<notin> set (snd (snd r)) \<and>
                    Call_free_uxPageTable \<notin> set (snd (snd r)))))"
        by blast
    qed
    from Destroy_calls_rwlock [OF d] have lk: "Call_pthread_rwlock_destroy \<in> set calls"
      by simp
    from d lk okv good again show ?thesis
      by blast
  qed
  from null live show ?thesis
    by blast
qed


theorem PurgMemDestroy_partial_failure_witness:
  "IsPurged False ex_region \<noteq> None \<and>
   (\<exists>obj calls. PurgMemDestroy False ex_env_failing (Some ex_region) = Some (False, obj, calls) \<and>
      Call_pthread_rwlock_destroy \<in> set calls \<and> Call_free_purgObj \<notin> set calls \<and>
      (\<exists>p'. obj = Some p' \<and> builder p' = [] \<and> dataPtr p' = 0x10000 \<and> uxPageTable p' = None \<and>
         (\<forall>env' r. PurgMemDestroy False env' (Some p') = Some r \<longrightarrow>
            Call_pthread_rwlock_destroy \<in> set (snd (snd r)) \<and>
            Call_PurgMemBuilderDestroy \<notin> set (snd (snd r)) \<and>
            Call_DeinitUxPageTable \<notin> set (snd (snd r)) \<and>
            Call_free_uxPageTable \<notin> set (snd (snd r)))))"
proof -
  have h: "IsPurged False ex_region \<noteq> None"
    by (simp add: IsPurged_def ex_region_def)
  have e: "builder_destroy_ok ex_env_failing" "munmap_data_ret ex_env_failing \<noteq> 0"
    "dataPtr ex_region = 0x10000" "builder ex_region \<noteq> []"
    "fst (DeinitUxPageTable False ex_env_failing (uxPageTable ex_region)) = PM_OK"
    by (simp_all add: ex_env_failing_def ex_region_def DeinitUxPageTable_def)
  from PurgMemDestroy_partial_failure [of False ex_env_failing ex_region] h
  obtain ok obj calls where
    d: "PurgMemDestroy False ex_env_failing (Some ex_region) = Some (ok, obj, calls)"
    and lk: "Call_pthread_rwlock_destroy \<in> set calls"
    and okv: "ok = (\<not> (builder ex_region \<noteq> [] \<and> \<not> builder_destroy_ok ex_env_failing) \<and>
              \<not> (dataPtr ex_region \<noteq> 0 \<and> munmap_data_ret ex_env_failing \<noteq> 0) \<and>
              \<not> (uxPageTable ex_region \<noteq> None \<and>
                 fst (DeinitUxPageTable False ex_env_failing (uxPageTable ex_region)) \<noteq> PM_OK))"
    and bad: "\<not> ok \<longrightarrow> Call_free_purgObj \<notin> set calls \<and>
           (\<exists>p'. obj = Some p' \<and>
              builder p' = (if builder_destroy_ok ex_env_failing then [] else builder ex_region) \<and>
              dataPtr p' = (if munmap_data_ret ex_env_failing = 0 then 0 else dataPtr ex_region) \<and>
              uxPageTable p' =
                (if fst (DeinitUxPageTable False ex_env_failing (uxPageTable ex_region)) = PM_OK
                 then None else uxPageTable ex_region) \<and>
              (\<forall>env' r. PurgMemDestroy False env' (Some p') = Some r \<longrightarrow>
                 Call_pthread_rwlock_destroy \<in> set (snd (snd r)) \<and>
                 (builder_destroy_ok ex_env_failing \<longrightarrow>
                    Call_PurgMemBuilderDestroy \<notin> set (snd (snd r))) \<and>
                 (munmap_data_ret ex_env_failing = 0 \<longrightarrow>
                    Call_munmap_dataPtr \<notin> set (snd (snd r))) \<and>
                 (fst (DeinitUxPageTable False ex_env_failing (uxPageTable ex_region)) = PM_OK \<longrightarrow>
                    Call_DeinitUxPageTable \<notin> set (snd (snd r)) \<and>
                    Call_free_uxPageTable \<notin> set (snd (snd r)))))"
    by blast
  from okv e have nok: "\<not> ok"
    by simp
  with bad e have "Call_free_purgObj \<notin> set calls \<and>
      (\<exists>p'. obj = Some p' \<and> builder p' = [] \<and> dataPtr p' = 0x10000 \<and> uxPageTable p' = None \<and>
         (\<forall>env' r. PurgMemDestroy False env' (Some p') = Some r \<longrightarrow>
            Call_pthread_rwlock_destroy \<in> set (snd (snd r)) \<and>
            Call_PurgMemBuilderDestroy \<notin> set (snd (snd r)) \<and>
            Call_DeinitUxPageTable \<notin> set (snd (snd r)) \<and>
            Call_free_uxPageTable \<notin> set (snd (snd r))))"
    by simp
  with d lk nok h show ?thesis
    by auto
qed

text \<open>
  Claim C10 as stated concludes that a repeated call releases no resource that is
  already released. The lock is one: with a data mapping that cannot be unmapped, the
  first call destroys the lock (successfully), the chain and the table and returns
  \<open>false\<close>; the second call on the same structure destroys the lock again.
\<close>

theorem destroy_repeats_rwlock_destroy_counterexample:
  "rwlock_destroy_ret ex_env_failing = 0 \<and>
   PurgMemDestroy False ex_env_failing (Some ex_region)
     = Some (False, Some (ex_region\<lparr>builder := [], uxPageTable := None\<rparr>),
             [Call_pthread_rwlock_destroy, Call_PurgMemBuilderDestroy, Call_munmap_dataPtr,
              Call_DeinitUxPageTable, Call_free_uxPageTable]) \<and>
   PurgMemDestroy False ex_env_failing (Some (ex_region\<lparr>builder := [], uxPageTable := None\<rparr>))
     = Some (False, Some (ex_region\<lparr>builder := [], uxPageTable := None\<rparr>),
             [Call_pthread_rwlock_destroy, Call_munmap_dataPtr])"
  by (simp add: PurgMemDestroy_def ex_env_failing_def ex_region_def Let_def
        PurgMemBuilderDestroy_def DeinitUxPageTable_def UxpteIsEnabled_def)

text \<open>
  Claim C7. The claim: an operation whose page-rounded range is not contained in the
  table's data range returns the out-of-range error. \<open>UxpteOps\<close> adds \<open>addr + len\<close>
  in 64-bit arithmetic with no overflow test (unlike \<open>RoundUp\<close> and
  \<open>GetUxPageSize\<close>, which test their additions). On the table for the one page at
  \<open>0x10000\<close>, with \<open>addr = 0x10000\<close> and \<open>len = 0xFFFFFFFFFFFF0001\<close>, the sum
  wraps to 1 and \<open>end\<close> is \<open>0x1000\<close>, below \<open>start\<close>: the range test passes, the
  loop has nothing to do, every operation returns \<open>PM_OK\<close> with the table as it
  was, and \<open>UxpteIsPresent\<close> answers \<open>true\<close> over descriptors that are all zero.
\<close>

theorem UxpteOps_wrapping_length_in_range:
  "RoundDown 0x10000 PAGE_SIZE = 0x10000 \<and>
   RoundUp (0x10000 + 0xFFFFFFFFFFFF0001) PAGE_SIZE = 0x1000 \<and>
   dataAddr ex_table = 0x10000 \<and> dataAddr ex_table + dataSize ex_table = 0x11000 \<and>
   UxpteOps (Some ex_table) 0x10000 0xFFFFFFFFFFFF0001 UPT_GET = Some (PM_OK, Some ex_table) \<and>
   UxpteOps (Some ex_table) 0x10000 0xFFFFFFFFFFFF0001 UPT_PUT = Some (PM_OK, Some ex_table) \<and>
   UxpteOps (Some ex_table) 0x10000 0xFFFFFFFFFFFF0001 UPT_CLEAR = Some (PM_OK, Some ex_table) \<and>
   UxpteOps (Some ex_table) 0x10000 0xFFFFFFFFFFFF0001 UPT_IS_PRESENT
     = Some (PM_OK, Some ex_table) \<and>
   UxpteIsPresent True (Some ex_table) 0x10000 0xFFFFFFFFFFFF0001 = Some True"
proof -
  have s: "RoundDown 0x10000 PAGE_SIZE = 0x10000"
    by (simp add: RoundDown_def PAGE_SIZE_4096)
  have e: "RoundUp (0x10000 + 0xFFFFFFFFFFFF0001) PAGE_SIZE = 0x1000"
    by (simp add: RoundUp_def PAGE_SIZE_4096)
  have t: "dataAddr ex_table = 0x10000" "dataAddr ex_table + dataSize ex_table = 0x11000"
    by (simp_all add: ex_table_def)
  have l: "UxpteOps_loop op 0x10000 0x1000 ex_table = Some (PM_OK, ex_table)" for op
    by (subst UxpteOps_loop.simps) simp
  have o: "UxpteOps (Some ex_table) 0x10000 0xFFFFFFFFFFFF0001 op = Some (PM_OK, Some ex_table)"
    for op
    unfolding UxpteOps_def Let_def s e by (simp add: l) (simp add: ex_table_def)
  from s e t o show ?thesis
    by (simp add: UxpteIsPresent_def)
qed

text \<open>
  What the range test of \<open>UxpteOps\<close> does establish. With
  \<open>start = RoundDown addr\<close> and \<open>end = RoundUp (addr + len)\<close> as the code computes
  them: when \<open>start\<close> is below \<open>dataAddr\<close> or \<open>end\<close> above
  \<open>dataAddr + dataSize\<close>, every operation returns \<open>PM_UXPT_OUT_RANGE\<close> and the
  table is as it was, whatever the descriptor pointer is (even \<open>NULL\<close>: no
  descriptor is read). Otherwise, for a table with mapped descriptors whose data
  range ends at or below the last page of the address space, the operation returns
  and has been applied to the descriptor of every page of \<open>[start, end)\<close>: \<open>get\<close>
  pins it, \<open>put\<close> subtracts the unit, \<open>clear\<close> zeroes it, \<open>isPresent\<close> answers
  whether all of them have the present bit. The pages have different descriptors,
  each is changed once, and no other descriptor changes.
\<close>

theorem UxpteOps_range_check:
  "(RoundDown addr PAGE_SIZE < dataAddr t \<or>
    dataAddr t + dataSize t < RoundUp (addr + len) PAGE_SIZE \<longrightarrow>
      UxpteOps (Some (t\<lparr>uxpte := x\<rparr>)) addr len op
        = Some (PM_UXPT_OUT_RANGE, Some (t\<lparr>uxpte := x\<rparr>))) \<and>
   (\<not> (RoundDown addr PAGE_SIZE < dataAddr t \<or>
       dataAddr t + dataSize t < RoundUp (addr + len) PAGE_SIZE) \<and>
    uxpte t = Some ptes \<and> dataAddr t + dataSize t \<le> - PAGE_SIZE \<longrightarrow>
      UxpteOps (Some t) addr len op =
        Some (case op of
           UPT_GET \<Rightarrow> (PM_OK, Some (t\<lparr>uxpte := Some (map_descriptors pin_value (dataAddr t)
               (page_range (RoundDown addr PAGE_SIZE) (RoundUp (addr + len) PAGE_SIZE)) ptes)\<rparr>))
         | UPT_PUT \<Rightarrow> (PM_OK, Some (t\<lparr>uxpte := Some (map_descriptors (\<lambda>v. v - 2) (dataAddr t)
               (page_range (RoundDown addr PAGE_SIZE) (RoundUp (addr + len) PAGE_SIZE)) ptes)\<rparr>))
         | UPT_CLEAR \<Rightarrow> (PM_OK, Some (t\<lparr>uxpte := Some (map_descriptors (\<lambda>v. 0) (dataAddr t)
               (page_range (RoundDown addr PAGE_SIZE) (RoundUp (addr + len) PAGE_SIZE)) ptes)\<rparr>))
         | UPT_IS_PRESENT \<Rightarrow>
             (if list_all (\<lambda>off. IsUxptePresent (ptes (GetIndexInUxpte (dataAddr t) off)))
                   (page_range (RoundDown addr PAGE_SIZE) (RoundUp (addr + len) PAGE_SIZE))
              then PM_OK else PM_UXPT_NO_PRESENT, Some t)) \<and>
      distinct (map (GetIndexInUxpte (dataAddr t))
                 (page_range (RoundDown addr PAGE_SIZE) (RoundUp (addr + len) PAGE_SIZE))) \<and>
      (\<forall>g. \<forall>off \<in> set (page_range (RoundDown addr PAGE_SIZE) (RoundUp (addr + len) PAGE_SIZE)).
         map_descriptors g (dataAddr t)
           (page_range (RoundDown addr PAGE_SIZE) (RoundUp (addr + len) PAGE_SIZE)) ptes
           (GetIndexInUxpte (dataAddr t) off)
         = g (ptes (GetIndexInUxpte (dataAddr t) off))) \<and>
      (\<forall>g i. i \<notin> GetIndexInUxpte (dataAddr t) `
                 set (page_range (RoundDown addr PAGE_SIZE) (RoundUp (addr + len) PAGE_SIZE)) \<longrightarrow>
         map_descriptors g (dataAddr t)
           (page_range (RoundDown addr PAGE_SIZE) (RoundUp (addr + len) PAGE_SIZE)) ptes i
         = ptes i))"
  (is "(?out \<longrightarrow> ?err) \<and> (\<not> ?out \<and> ?m \<and> ?top \<longrightarrow> ?res \<and> ?dist \<and> ?at \<and> ?other)")
proof (intro conjI impI)
  assume ?out
  then have "RoundDown addr PAGE_SIZE < dataAddr (t\<lparr>uxpte := x\<rparr>) \<or>
     dataAddr (t\<lparr>uxpte := x\<rparr>) + dataSize (t\<lparr>uxpte := x\<rparr>) < RoundUp (addr + len) PAGE_SIZE"
    by simp
  then show ?err
    by (rule UxpteOps_out_range)
next
  assume a: "\<not> ?out \<and> ?m \<and> ?top"
  then show ?res
    using UxpteOps_in_range [of addr t len ptes op] by blast
  from a have "\<not> dataAddr t + dataSize t < RoundUp (addr + len) PAGE_SIZE" ?top
    by simp_all
  from end_bound [OF this]
  have e: "unat (RoundUp (addr + len) PAGE_SIZE) + 4096 \<le> 2 ^ 64" .
  from distinct_page_range [OF e] show d: ?dist .
  from d show ?at
    by (simp add: map_descriptors_at)
  show ?other
    by (simp add: map_descriptors_other)
qed

theorem UxpteOps_range_check_witness:
  "UxpteOps (Some ex_table) 0x20000 1 UPT_GET = Some (PM_UXPT_OUT_RANGE, Some ex_table) \<and>
   uxpte ex_table = Some (\<lambda>i. 0) \<and> dataAddr ex_table + dataSize ex_table \<le> - PAGE_SIZE \<and>
   page_range (RoundDown 0x10000 PAGE_SIZE) (RoundUp (0x10000 + 1) PAGE_SIZE) = [0x10000] \<and>
   UxpteOps (Some ex_table) 0x10000 1 UPT_GET
     = Some (PM_OK, Some (ex_table\<lparr>uxpte := Some ((\<lambda>i. 0)(0x10 := 2))\<rparr>))"
proof -
  have o: "dataAddr ex_table + dataSize ex_table < RoundUp (0x20000 + 1) PAGE_SIZE"
    by (simp add: ex_table_def RoundUp_def PAGE_SIZE_4096)
  have x: "ex_table\<lparr>uxpte := Some (\<lambda>i. 0)\<rparr> = ex_table"
    by (simp add: ex_table_def)
  have i: "\<not> (RoundDown 0x10000 PAGE_SIZE < dataAddr ex_table \<or>
       dataAddr ex_table + dataSize ex_table < RoundUp (0x10000 + 1) PAGE_SIZE)"
    by (simp add: ex_table_def RoundUp_def RoundDown_def PAGE_SIZE_4096)
  have m: "uxpte ex_table = Some (\<lambda>i. 0)"
    by (simp add: ex_table_def)
  have h: "dataAddr ex_table + dataSize ex_table \<le> - PAGE_SIZE"
    by (simp add: ex_table_def PAGE_SIZE_4096)
  have p: "page_range (RoundDown 0x10000 PAGE_SIZE) (RoundUp (0x10000 + 1) PAGE_SIZE) = [0x10000]"
    by (simp add: page_range_def npages_def RoundUp_def RoundDown_def PAGE_SIZE_4096)
  have g: "GetIndexInUxpte (dataAddr ex_table) 0x10000 = 0x10"
    by (simp add: ex_table_def GetIndexInUxpte_def UxpteOffset_def VirtPageNo_def
          UXPTE_PER_PAGE_def UXPTE_PER_PAGE_SHIFT_def PAGE_SHIFT_def UXPTE_SIZE_SHIFT_def
          drop_bit_eq_div)
  have v: "pin_value 0 = 2"
    by (simp add: pin_value_def)
  from UxpteOps_range_check [of "0x20000" ex_table 1 "Some (\<lambda>i. 0)" UPT_GET] o x
  have 1: "UxpteOps (Some ex_table) 0x20000 1 UPT_GET = Some (PM_UXPT_OUT_RANGE, Some ex_table)"
    by simp
  from UxpteOps_range_check [of "0x10000" ex_table 1 _ UPT_GET "\<lambda>i. 0"] i m h
  have "UxpteOps (Some ex_table) 0x10000 1 UPT_GET
     = Some (PM_OK, Some (ex_table\<lparr>uxpte := Some (map_descriptors pin_value (dataAddr ex_table)
               (page_range (RoundDown 0x10000 PAGE_SIZE) (RoundUp (0x10000 + 1) PAGE_SIZE))
               (\<lambda>i. 0))\<rparr>))"
    by simp
  with p g v have 2: "UxpteOps (Some ex_table) 0x10000 1 UPT_GET
     = Some (PM_OK, Some (ex_table\<lparr>uxpte := Some ((\<lambda>i. 0)(0x10 := 2))\<rparr>))"
    by (simp add: map_descriptors_def)
  from 1 2 m h p show ?thesis
    by simp
qed

text \<open>
  Claim C4. \<open>IsPurged\<close> returns \<open>true\<close> when \<open>buildDataCount\<close> is 0, whatever the
  table holds. When \<open>buildDataCount\<close> is not 0 it returns \<open>false\<close> without the
  capability (the table then reports every page present), and with the capability,
  on a region whose table covers \<open>[dataPtr, dataPtr + dataSizeInput)\<close>, it returns
  \<open>true\<close> exactly when the descriptor of some covered page lacks the present bit.
\<close>

theorem IsPurged_never_built_or_not_present:
  "(buildDataCount p = 0 \<longrightarrow> IsPurged cap p = Some True) \<and>
   (buildDataCount p \<noteq> 0 \<and> \<not> cap \<longrightarrow> IsPurged cap p = Some False) \<and>
   (buildDataCount p \<noteq> 0 \<and> cap \<and> uxPageTable p = Some t \<and> uxpte t = Some ptes \<and>
    \<not> (RoundDown (dataPtr p) PAGE_SIZE < dataAddr t \<or>
       dataAddr t + dataSize t < RoundUp (dataPtr p + dataSizeInput p) PAGE_SIZE) \<and>
    dataAddr t + dataSize t \<le> - PAGE_SIZE \<longrightarrow>
      IsPurged cap p
        = Some (list_ex (\<lambda>off. \<not> IsUxptePresent (ptes (GetIndexInUxpte (dataAddr t) off)))
                  (page_range (RoundDown (dataPtr p) PAGE_SIZE)
                     (RoundUp (dataPtr p + dataSizeInput p) PAGE_SIZE))))"
proof (intro conjI impI)
  assume a: "buildDataCount p \<noteq> 0 \<and> cap \<and> uxPageTable p = Some t \<and> uxpte t = Some ptes \<and>
    \<not> (RoundDown (dataPtr p) PAGE_SIZE < dataAddr t \<or>
       dataAddr t + dataSize t < RoundUp (dataPtr p + dataSizeInput p) PAGE_SIZE) \<and>
    dataAddr t + dataSize t \<le> - PAGE_SIZE"
  then have "UxpteIsPresent True (Some t) (dataPtr p) (dataSizeInput p)
     = Some (list_all (\<lambda>off. IsUxptePresent (ptes (GetIndexInUxpte (dataAddr t) off)))
               (page_range (RoundDown (dataPtr p) PAGE_SIZE)
                  (RoundUp (dataPtr p + dataSizeInput p) PAGE_SIZE)))"
    by (intro UxpteIsPresent_in_range) simp_all
  with a show "IsPurged cap p
        = Some (list_ex (\<lambda>off. \<not> IsUxptePresent (ptes (GetIndexInUxpte (dataAddr t) off)))
                  (page_range (RoundDown (dataPtr p) PAGE_SIZE)
                     (RoundUp (dataPtr p + dataSizeInput p) PAGE_SIZE)))"
    by (simp add: IsPurged_def list_ex_iff list_all_iff)
qed (simp_all add: IsPurged_def UxpteIsPresent_def)

theorem IsPurged_never_built_or_not_present_witness:
  "buildDataCount ex_region = 0 \<and> IsPurged True ex_region = Some True \<and>
   IsPurged False (ex_region\<lparr>buildDataCount := 1\<rparr>) = Some False \<and>
   page_range (RoundDown (dataPtr ex_region) PAGE_SIZE)
     (RoundUp (dataPtr ex_region + dataSizeInput ex_region) PAGE_SIZE) = [0x10000] \<and>
   IsPurged True (ex_region\<lparr>buildDataCount := 1\<rparr>) = Some True \<and>
   IsPurged True (ex_region\<lparr>buildDataCount := 1,
                    uxPageTable := Some (ex_table\<lparr>uxpte := Some (\<lambda>i. 3)\<rparr>)\<rparr>) = Some False"
proof -
  let ?p = "ex_region\<lparr>buildDataCount := 1\<rparr>"
  let ?t = "ex_table\<lparr>uxpte := Some (\<lambda>i. 3)\<rparr>"
  let ?q = "ex_region\<lparr>buildDataCount := 1, uxPageTable := Some ?t\<rparr>"
  have pr: "page_range (RoundDown (dataPtr ex_region) PAGE_SIZE)
     (RoundUp (dataPtr ex_region + dataSizeInput ex_region) PAGE_SIZE) = [0x10000]"
    by (simp add: ex_region_def page_range_def npages_def RoundUp_def RoundDown_def PAGE_SIZE_4096)
  have r: "\<not> (RoundDown (dataPtr ex_region) PAGE_SIZE < dataAddr ex_table \<or>
       dataAddr ex_table + dataSize ex_table
         < RoundUp (dataPtr ex_region + dataSizeInput ex_region) PAGE_SIZE)"
    "dataAddr ex_table + dataSize ex_table \<le> - PAGE_SIZE"
    by (simp_all add: ex_region_def ex_table_def RoundUp_def RoundDown_def PAGE_SIZE_4096)
  have f: "dataPtr ?p = dataPtr ex_region" "dataSizeInput ?p = dataSizeInput ex_region"
    "uxPageTable ?p = Some ex_table" "uxpte ex_table = Some (\<lambda>i. 0)" "buildDataCount ?p \<noteq> 0"
    "dataPtr ?q = dataPtr ex_region" "dataSizeInput ?q = dataSizeInput ex_region"
    "uxPageTable ?q = Some ?t" "uxpte ?t = Some (\<lambda>i. 3)" "buildDataCount ?q \<noteq> 0"
    "dataAddr ?t = dataAddr ex_table" "dataSize ?t = dataSize ex_table"
    "buildDataCount ex_region = 0"
    by (simp_all add: ex_region_def ex_table_def)
  from IsPurged_never_built_or_not_present [of ex_region True] f
  have 1: "IsPurged True ex_region = Some True"
    by simp
  from IsPurged_never_built_or_not_present [of ?p False] f
  have 2: "IsPurged False ?p = Some False"
    by (simp add: UxpteIsPresent_def)
  from IsPurged_never_built_or_not_present [of ?p True ex_table "\<lambda>i. 0"] f r pr
  have 3: "IsPurged True ?p = Some True"
    by (simp add: IsUxptePresent_odd)
  from IsPurged_never_built_or_not_present [of ?q True ?t "\<lambda>i. 3"] f r pr
  have 4: "IsPurged True ?q = Some False"
    by (simp add: IsUxptePresent_odd)
  from 1 2 3 4 pr f(13) show ?thesis
    by simp
qed

text \<open>
  Claim C6. Without the capability \<open>UxpteIsPresent\<close> answers \<open>true\<close> for every
  table and range. \<open>PurgMemBeginRead\<close> on a valid region that was never built and
  whose lock is free still makes exactly one call of \<open>PurgMemBuildData\<close>: when the
  build succeeds the call returns \<open>true\<close> with the region as that one build left it,
  \<open>buildDataCount = 1\<close> and one read lock held; when it fails the call returns
  \<open>false\<close> and \<open>buildDataCount\<close> stays 0. Every \<open>PurgMemBeginRead\<close> on a valid
  region with \<open>buildDataCount \<noteq> 0\<close> (outside a write session of the thread) returns
  \<open>true\<close> on the fast path: only the count of read locks changes, the bytes and
  \<open>buildDataCount\<close> are as before.
\<close>

theorem capability_off_one_build_then_fast_path:
  "UxpteIsPresent False tab addr len = Some True \<and>
   (IsPurgMemPtrValid (Some p) \<and> buildDataCount p = 0 \<and> rwlock p = rwlock_free \<and>
    fst (PurgMemBuildData False p) \<longrightarrow>
      PurgMemBeginRead False (Some p)
        = Some (True, Some ((snd (PurgMemBuildData False p))
                              \<lparr>rwlock := \<lparr>readers = 1, writer = False\<rparr>\<rparr>)) \<and>
      buildDataCount (snd (PurgMemBuildData False p)) = 1) \<and>
   (IsPurgMemPtrValid (Some p) \<and> buildDataCount p = 0 \<and> rwlock p = rwlock_free \<and>
    \<not> fst (PurgMemBuildData False p) \<longrightarrow>
      PurgMemBeginRead False (Some p) = Some (False, Some (snd (PurgMemBuildData False p))) \<and>
      buildDataCount (snd (PurgMemBuildData False p)) = 0) \<and>
   (IsPurgMemPtrValid (Some q) \<and> buildDataCount q \<noteq> 0 \<and> \<not> writer (rwlock q) \<longrightarrow>
      PurgMemBeginRead False (Some q)
        = Some (True, Some (q\<lparr>rwlock := (rwlock q)\<lparr>readers := readers (rwlock q) + 1\<rparr>\<rparr>)))"
proof (intro conjI impI)
  show "UxpteIsPresent False tab addr len = Some True"
    by (simp add: UxpteIsPresent_def)
next
  assume a: "IsPurgMemPtrValid (Some p) \<and> buildDataCount p = 0 \<and> rwlock p = rwlock_free \<and>
    fst (PurgMemBuildData False p)"
  then have "PurgMemBeginRead_loop False p
     = Some (True, PM_DATA_NO_PURGED,
             (snd (PurgMemBuildData False p))\<lparr>rwlock := \<lparr>readers = 1, writer = False\<rparr>\<rparr>)"
    by (intro BeginRead_loop_first) (simp_all add: UxpteIsPresent_def)
  with a show "PurgMemBeginRead False (Some p)
        = Some (True, Some ((snd (PurgMemBuildData False p))
                              \<lparr>rwlock := \<lparr>readers = 1, writer = False\<rparr>\<rparr>))"
    by (simp add: PurgMemBeginRead_def UxpteGet_def)
  from a show "buildDataCount (snd (PurgMemBuildData False p)) = 1"
    by (simp add: BuildData_count)
next
  assume a: "IsPurgMemPtrValid (Some p) \<and> buildDataCount p = 0 \<and> rwlock p = rwlock_free \<and>
    \<not> fst (PurgMemBuildData False p)"
  then have "PurgMemBeginRead_loop False p
     = Some (False, PMB_BUILD_ALL_FAIL, snd (PurgMemBuildData False p))"
    by (intro BeginRead_loop_first_fails) simp_all
  moreover have "uxPageTable (snd (PurgMemBuildData False p)) = uxPageTable p"
    by (simp add: PurgMemBuildData_def Let_def kernel_populate_def)
  ultimately show "PurgMemBeginRead False (Some p)
      = Some (False, Some (snd (PurgMemBuildData False p)))"
    using a by (simp add: PurgMemBeginRead_def UxpteGet_def UxptePut_def)
  from a show "buildDataCount (snd (PurgMemBuildData False p)) = 0"
    by (simp add: BuildData_count)
next
  assume a: "IsPurgMemPtrValid (Some q) \<and> buildDataCount q \<noteq> 0 \<and> \<not> writer (rwlock q)"
  then have "IsPurged False q = Some False"
    by (simp add: IsPurged_def UxpteIsPresent_def)
  with a have "PurgMemBeginRead_loop False q
     = Some (True, PM_DATA_NO_PURGED,
             q\<lparr>rwlock := (rwlock q)\<lparr>readers := readers (rwlock q) + 1\<rparr>\<rparr>)"
    by (intro BeginRead_loop_fast) simp_all
  with a show "PurgMemBeginRead False (Some q)
        = Some (True, Some (q\<lparr>rwlock := (rwlock q)\<lparr>readers := readers (rwlock q) + 1\<rparr>\<rparr>))"
    by (simp add: PurgMemBeginRead_def UxpteGet_def)
qed


theorem capability_off_one_build_then_fast_path_witness:
  "IsPurgMemPtrValid (Some ex_region) \<and> buildDataCount ex_region = 0 \<and>
   rwlock ex_region = rwlock_free \<and> fst (PurgMemBuildData False ex_region) \<and>
   PurgMemBeginRead False (Some ex_region)
     = Some (True, Some ((snd (PurgMemBuildData False ex_region))
                           \<lparr>rwlock := \<lparr>readers = 1, writer = False\<rparr>\<rparr>)) \<and>
   buildDataCount (snd (PurgMemBuildData False ex_region)) = 1 \<and>
   PurgMemBeginRead False
       (Some ((snd (PurgMemBuildData False ex_region))
                \<lparr>rwlock := \<lparr>readers = 1, writer = False\<rparr>\<rparr>))
     = Some (True, Some ((snd (PurgMemBuildData False ex_region))
                           \<lparr>rwlock := \<lparr>readers = 2, writer = False\<rparr>\<rparr>)) \<and>
   \<not> fst (PurgMemBuildData False (ex_region\<lparr>builder := [(fail_func, 0)]\<rparr>)) \<and>
   PurgMemBeginRead False (Some (ex_region\<lparr>builder := [(fail_func, 0)]\<rparr>))
     = Some (False, Some (snd (PurgMemBuildData False (ex_region\<lparr>builder := [(fail_func, 0)]\<rparr>))))"
proof -
  let ?b = "snd (PurgMemBuildData False ex_region)"
  let ?q = "?b\<lparr>rwlock := \<lparr>readers = 1, writer = False\<rparr>\<rparr>"
  let ?f = "ex_region\<lparr>builder := [(fail_func, 0)]\<rparr>"
  have v: "IsPurgMemPtrValid (Some ex_region)" "buildDataCount ex_region = 0"
    "rwlock ex_region = rwlock_free"
    "IsPurgMemPtrValid (Some ?f)" "buildDataCount ?f = 0" "rwlock ?f = rwlock_free"
    by (simp_all add: IsPurgMemPtrValid_def ex_region_def)
  have h: "fst (PurgMemBuildData False ex_region)"
    by (simp add: PurgMemBuildData_def ex_region_def memset_s_def RoundUp_def PAGE_SIZE_4096
          Let_def EOK_def SECUREC_MEM_MAX_LEN_def kernel_populate_def call_func_def fill_func_def)
  have g: "\<not> fst (PurgMemBuildData False ?f)"
    by (simp add: PurgMemBuildData_def ex_region_def memset_s_def RoundUp_def PAGE_SIZE_4096
          Let_def EOK_def SECUREC_MEM_MAX_LEN_def kernel_populate_def call_func_def fail_func_def)
  from capability_off_one_build_then_fast_path [of _ _ _ ex_region ex_region] v h
  have 1: "PurgMemBeginRead False (Some ex_region) = Some (True, Some ?q)"
    and c: "buildDataCount ?b = 1"
    by simp_all
  have vq: "IsPurgMemPtrValid (Some ?q)"
    using v(1) by (simp add: IsPurgMemPtrValid_def PurgMemBuildData_def Let_def
                     kernel_populate_def split: if_splits)
  from capability_off_one_build_then_fast_path [of _ _ _ ex_region ?q] vq c
  have 2: "PurgMemBeginRead False (Some ?q)
     = Some (True, Some (?b\<lparr>rwlock := \<lparr>readers = 2, writer = False\<rparr>\<rparr>))"
    by simp
  from capability_off_one_build_then_fast_path [of _ _ _ ?f ex_region] v g
  have 3: "PurgMemBeginRead False (Some ?f) = Some (False, Some (snd (PurgMemBuildData False ?f)))"
    by simp
  from v h g 1 c 2 3 show ?thesis
    by simp
qed



text \<open>
  Claim C3, as amended. Let \<open>PurgMemBeginRead\<close> or \<open>PurgMemBeginWrite\<close> return
  \<open>false\<close> on a valid region. Then the region is still there and its lock is as it was
  before the call. When the descriptors are mapped and the table ends at least a page
  below the top of the address space, the table differs from the one before the call
  only in its descriptors, and every descriptor of a page of
  \<open>[dataPtr, dataPtr + dataSizeInput)\<close> whose value was below \<open>2^64 - 2\<close>, so that
  the overflow guard of \<open>UxpteAdd\<close> let the pin through, has the reference count
  (the bits above the present flag) that it had before the call. The kernel is quiet
  but for the present flags it sets when \<open>PurgMemBuildData\<close> stores to the pages.
\<close>

theorem failed_begin_restores_pins_and_lock:
  assumes valid: "IsPurgMemPtrValid (Some p)"
    and fail: "PurgMemBeginRead cap (Some p) = Some (False, q) \<or>
               PurgMemBeginWrite cap (Some p) = Some (False, q)"
  shows "\<exists>p'. q = Some p' \<and> rwlock p' = rwlock p \<and>
     (uxPageTable p = Some t \<and> uxpte t = Some ptes \<and>
      dataAddr t + dataSize t \<le> - PAGE_SIZE \<longrightarrow>
        (\<exists>ptes'. uxPageTable p' = Some (t\<lparr>uxpte := Some ptes'\<rparr>) \<and>
           (\<forall>off \<in> set (page_range (RoundDown (dataPtr p) PAGE_SIZE)
                            (RoundUp (dataPtr p + dataSizeInput p) PAGE_SIZE)).
              \<not> ptes (GetIndexInUxpte (dataAddr t) off) + 2
                  < ptes (GetIndexInUxpte (dataAddr t) off) \<longrightarrow>
              drop_bit 1 (ptes' (GetIndexInUxpte (dataAddr t) off))
                = drop_bit 1 (ptes (GetIndexInUxpte (dataAddr t) off)))))"
proof -
  from fail BeginRead_false [OF valid] BeginWrite_false [OF valid]
  obtain pinned middle unpinned p' where
    G: "UxpteGet cap (uxPageTable p) (dataPtr p) (dataSizeInput p) = Some pinned"
    and M: "\<forall>t1 p1. pinned = Some t1 \<and> uxpte t1 = Some p1 \<longrightarrow>
        (\<exists>p2. middle = Some (t1\<lparr>uxpte := Some p2\<rparr>) \<and>
              (\<forall>i. p2 i = p1 i \<or> p2 i = p1 i OR 1))"
    and U: "UxptePut cap middle (dataPtr p) (dataSizeInput p) = Some unpinned"
    and q: "q = Some p'" "rwlock p' = rwlock p" "uxPageTable p' = unpinned"
    by blast
  have "\<exists>ptes'. uxPageTable p' = Some (t\<lparr>uxpte := Some ptes'\<rparr>) \<and>
           (\<forall>off \<in> set (page_range (RoundDown (dataPtr p) PAGE_SIZE)
                            (RoundUp (dataPtr p + dataSizeInput p) PAGE_SIZE)).
              \<not> ptes (GetIndexInUxpte (dataAddr t) off) + 2
                  < ptes (GetIndexInUxpte (dataAddr t) off) \<longrightarrow>
              drop_bit 1 (ptes' (GetIndexInUxpte (dataAddr t) off))
                = drop_bit 1 (ptes (GetIndexInUxpte (dataAddr t) off)))"
    if tab: "uxPageTable p = Some t" "uxpte t = Some ptes"
      "dataAddr t + dataSize t \<le> - PAGE_SIZE"
  proof -
    from G tab(1) have "UxpteGet cap (Some t) (dataPtr p) (dataSizeInput p) = Some pinned"
      by simp
    from unpin_after_pin [OF this tab(2,3) M U] q(3) show ?thesis
      by simp
  qed
  with q(1,2) show ?thesis
    by (intro exI [of _ p']) simp
qed

theorem failed_begin_restores_pins_and_lock_witness:
  "IsPurgMemPtrValid (Some ex_failing) \<and>
   PurgMemBeginWrite True (Some ex_failing) = Some (False, Some ex_unpinned) \<and>
   PurgMemBeginRead True (Some ex_failing) = Some (False, Some ex_unpinned) \<and>
   uxPageTable ex_failing = Some ex_table \<and> uxpte ex_table = Some (\<lambda>i. 0) \<and>
   dataAddr ex_table + dataSize ex_table \<le> - PAGE_SIZE \<and>
   page_range (RoundDown (dataPtr ex_failing) PAGE_SIZE)
     (RoundUp (dataPtr ex_failing + dataSizeInput ex_failing) PAGE_SIZE) = [0x10000] \<and>
   GetIndexInUxpte (dataAddr ex_table) 0x10000 = 16 \<and>
   rwlock ex_unpinned = rwlock ex_failing \<and>
   (\<exists>ptes'. uxPageTable ex_unpinned = Some (ex_table\<lparr>uxpte := Some ptes'\<rparr>) \<and>
            drop_bit 1 (ptes' 16) = (0 :: uxpte_t))"
proof -
  have e: "ex_failing\<lparr>uxPageTable := Some (ex_table\<lparr>uxpte := Some (\<lambda>i. 0)\<rparr>)\<rparr> = ex_failing"
    by (simp add: ex_failing_def ex_region_def ex_table_def)
  have u: "ex_failing\<lparr>mem := (\<lambda>i. if i = 0 then 0 else 0xFF),
             uxPageTable := Some (ex_table\<lparr>uxpte :=
               Some ((\<lambda>i. 0)(16 := (pin_value 0 OR 1) - 2))\<rparr>)\<rparr> = ex_unpinned"
    by (simp add: ex_unpinned_def pin_value_def)
  note B = ex_failing_begin [of "\<lambda>i. 0", unfolded e u]
  have f: "uxPageTable ex_failing = Some ex_table" "uxpte ex_table = Some (\<lambda>i. 0)"
    "dataAddr ex_table + dataSize ex_table \<le> - PAGE_SIZE"
    "dataPtr ex_failing = 0x10000" "dataSizeInput ex_failing = 1"
    "dataAddr ex_table = 0x10000"
    by (simp_all add: ex_failing_def ex_region_def ex_table_def PAGE_SIZE_4096)
  have pr: "page_range (RoundDown (dataPtr ex_failing) PAGE_SIZE)
     (RoundUp (dataPtr ex_failing + dataSizeInput ex_failing) PAGE_SIZE) = [0x10000]"
    "GetIndexInUxpte (dataAddr ex_table) 0x10000 = 16"
    by (simp_all add: f ex_table_page)
  from failed_begin_restores_pins_and_lock [of ex_failing True "Some ex_unpinned" ex_table
      "\<lambda>i. 0"] B f(1-3)
  have "rwlock ex_unpinned = rwlock ex_failing \<and>
     (\<exists>ptes'. uxPageTable ex_unpinned = Some (ex_table\<lparr>uxpte := Some ptes'\<rparr>) \<and>
            drop_bit 1 (ptes' 16) = (0 :: uxpte_t))"
    by (simp add: pr)
  with B f(1-3) pr show ?thesis
    by (intro conjI) simp_all
qed

text \<open>
  Claim C3 as stated fails where \<open>UxpteAdd\<close> skips the pin: on
  \<open>ex_saturated\<close> the descriptor of the page is \<open>0xFFFFFFFFFFFFFFFF\<close>, adding the
  reference-count unit would overflow and \<open>UxpteGet\<close> leaves the table as it is.
  The build fails, and \<open>UxptePut\<close> subtracts the unit all the same: the reference
  count of the descriptor is one less after the failed call than before it.
\<close>

theorem failed_begin_skipped_pin_counterexample:
  "IsPurgMemPtrValid (Some ex_saturated) \<and>
   UxpteGet True (uxPageTable ex_saturated) (dataPtr ex_saturated) (dataSizeInput ex_saturated)
     = Some (uxPageTable ex_saturated) \<and>
   PurgMemBeginWrite True (Some ex_saturated)
     = Some (False, Some (ex_saturated\<lparr>mem := (\<lambda>i. if i = 0 then 0 else 0xFF),
          uxPageTable := Some (ex_table\<lparr>uxpte :=
            Some ((\<lambda>i. 0xFFFFFFFFFFFFFFFF)(16 := 0xFFFFFFFFFFFFFFFD))\<rparr>)\<rparr>)) \<and>
   PurgMemBeginRead True (Some ex_saturated)
     = Some (False, Some (ex_saturated\<lparr>mem := (\<lambda>i. if i = 0 then 0 else 0xFF),
          uxPageTable := Some (ex_table\<lparr>uxpte :=
            Some ((\<lambda>i. 0xFFFFFFFFFFFFFFFF)(16 := 0xFFFFFFFFFFFFFFFD))\<rparr>)\<rparr>)) \<and>
   page_range (RoundDown (dataPtr ex_saturated) PAGE_SIZE)
     (RoundUp (dataPtr ex_saturated + dataSizeInput ex_saturated) PAGE_SIZE) = [0x10000] \<and>
   GetIndexInUxpte (dataAddr ex_table) 0x10000 = 16 \<and>
   drop_bit 1 (0xFFFFFFFFFFFFFFFF :: uxpte_t) = 0x7FFFFFFFFFFFFFFF \<and>
   drop_bit 1 (0xFFFFFFFFFFFFFFFD :: uxpte_t) = 0x7FFFFFFFFFFFFFFE"
proof -
  let ?D = "\<lambda>i :: 64 word. 0xFFFFFFFFFFFFFFFF :: uxpte_t"
  have e: "ex_failing\<lparr>uxPageTable := Some (ex_table\<lparr>uxpte := Some ?D\<rparr>)\<rparr> = ex_saturated"
    by (simp add: ex_saturated_def)
  have pv: "(pin_value 0xFFFFFFFFFFFFFFFF OR 1) - 2 = (0xFFFFFFFFFFFFFFFD :: uxpte_t)"
    "pin_value 0xFFFFFFFFFFFFFFFF = 0xFFFFFFFFFFFFFFFF"
    by (simp_all add: pin_value_def)
  note B = ex_failing_begin [of ?D, unfolded e pv]
  have f: "dataPtr ex_saturated = 0x10000" "dataSizeInput ex_saturated = 1"
    "dataAddr ex_table = 0x10000"
    "uxPageTable ex_saturated = Some (ex_table\<lparr>uxpte := Some ?D\<rparr>)"
    by (simp_all add: ex_saturated_def ex_failing_def ex_region_def ex_table_def)
  have z: "?D(16 := 0xFFFFFFFFFFFFFFFF) = ?D"
    by (rule ext) simp
  have g: "UxpteGet True (uxPageTable ex_saturated) (dataPtr ex_saturated)
             (dataSizeInput ex_saturated) = Some (uxPageTable ex_saturated)"
    by (simp add: f ex_table_ops pv z)
  have pr: "page_range (RoundDown (dataPtr ex_saturated) PAGE_SIZE)
     (RoundUp (dataPtr ex_saturated + dataSizeInput ex_saturated) PAGE_SIZE) = [0x10000]"
    "GetIndexInUxpte (dataAddr ex_table) 0x10000 = 16"
    by (simp_all add: f ex_table_page)
  have db: "drop_bit 1 (0xFFFFFFFFFFFFFFFF :: uxpte_t) = 0x7FFFFFFFFFFFFFFF"
    "drop_bit 1 (0xFFFFFFFFFFFFFFFD :: uxpte_t) = 0x7FFFFFFFFFFFFFFE"
    by (simp_all add: drop_bit_eq_div)
  from B g pr db show ?thesis
    by simp
qed

end
